theory Spec2Isabelle
  imports Complex_Main "HOL-Library.Monad_Syntax"
begin

chapter \<open>fature-data-service-v2: ETL pipeline and analytics engine\<close>

text \<open>
  A shallow embedding of the JavaScript sources of the data service: the extractor
  (\<^verbatim>\<open>src/etl/extractors/dataExtractor.js\<close>), the transformer
  (\<^verbatim>\<open>src/etl/transformers/dataTransformer.js\<close>), the loader and the scheduler
  (both in \<^verbatim>\<open>src/services/dataService.js\<close>), the analytics service (same file) and
  the data model (\<^verbatim>\<open>src/models/dataModel.js\<close>).

  Conventions. An \<^verbatim>\<open>async\<close> function that may reject is a function into a sum type,
  \<open>Inl\<close> carrying the error. What the databases, the \<^verbatim>\<open>moment\<close> library and
  \<^verbatim>\<open>parseFloat\<close> answer is an input of the model. Mutable members
  (\<^verbatim>\<open>this.loadStats\<close>, \<^verbatim>\<open>this.currentJobs\<close>, \<^verbatim>\<open>this.stats\<close>) are passed
  and returned explicitly.
\<close>

section \<open>Definitions\<close>

subsection \<open>JavaScript values\<close>

text \<open>
  A JavaScript number is modelled as an exact rational or \<^verbatim>\<open>NaN\<close>; rounding of
  IEEE doubles and the infinities are outside the model.
\<close>

datatype jsnum = Num rat | NaN

text \<open>
  The values a row can hold. \<open>VObj\<close> is an opaque object (a \<^verbatim>\<open>Date\<close>, say), \<open>VArr\<close>
  an array of strings (\<^verbatim>\<open>_unique_fields\<close>), and \<open>VMetadata\<close> the
  \<^verbatim>\<open>_etl_metadata\<close> object \<^verbatim>\<open>{source_table, target_table, transformed_at, source_id}\<close>.
\<close>

datatype jsval =
    VUndefined
  | VNull
  | VBool bool
  | VNum jsnum
  | VStr string
  | VObj string
  | VArr "string list"
  | VMetadata string string string jsval

type_synonym row = "string \<rightharpoonup> jsval"

text \<open>\<^verbatim>\<open>record[field]\<close>: a missing property reads as \<^verbatim>\<open>undefined\<close>.\<close>

definition getProp :: "row \<Rightarrow> string \<Rightarrow> jsval" where
  "getProp r f = (case r f of None \<Rightarrow> VUndefined | Some v \<Rightarrow> v)"

text \<open>JavaScript truthiness (\<^verbatim>\<open>if (v)\<close>, \<^verbatim>\<open>!v\<close>, \<^verbatim>\<open>v || d\<close>).\<close>

fun truthy :: "jsval \<Rightarrow> bool" where
  "truthy VUndefined = False"
| "truthy VNull = False"
| "truthy (VBool b) = b"
| "truthy (VNum (Num q)) = (q \<noteq> 0)"
| "truthy (VNum NaN) = False"
| "truthy (VStr s) = (s \<noteq> [])"
| "truthy (VObj _) = True"
| "truthy (VArr _) = True"
| "truthy (VMetadata _ _ _ _) = True"

text \<open>
  String primitives, on code units below 256: \<^verbatim>\<open>String.prototype.trim\<close> (tab, line
  feed, vertical tab, form feed, carriage return, space and the no-break space U+00A0; the
  white space beyond U+00FF is outside the model), \<^verbatim>\<open>toLowerCase\<close> on the ASCII letters,
  \<^verbatim>\<open>includes\<close>, \<^verbatim>\<open>startsWith\<close> and \<^verbatim>\<open>endsWith\<close>.
\<close>

definition is_ws :: "char \<Rightarrow> bool" where
  "is_ws c =
     (c \<in> set [CHR 0x09, CHR 0x0A, CHR 0x0B, CHR 0x0C, CHR 0x0D, CHR 0x20, CHR 0xA0])"

definition trim :: "string \<Rightarrow> string" where
  "trim s = rev (dropWhile is_ws (rev (dropWhile is_ws s)))"

definition lower_char :: "char \<Rightarrow> char" where
  "lower_char c =
     (let n = (of_char c :: nat) in if 65 \<le> n \<and> n \<le> 90 then char_of (n + 32) else c)"

definition toLowerCase :: "string \<Rightarrow> string" where
  "toLowerCase s = map lower_char s"

fun startsWith :: "string \<Rightarrow> string \<Rightarrow> bool" where
  "startsWith s [] = True"
| "startsWith [] (c # cs) = False"
| "startsWith (x # xs) (c # cs) = (x = c \<and> startsWith xs cs)"

fun js_includes :: "string \<Rightarrow> string \<Rightarrow> bool" where
  "js_includes [] sub = (sub = [])"
| "js_includes (x # xs) sub = (startsWith (x # xs) sub \<or> js_includes xs sub)"

definition endsWith :: "string \<Rightarrow> string \<Rightarrow> bool" where
  "endsWith s sub = startsWith (rev s) (rev sub)"

text \<open>
  The platform functions the code calls on row values and the sources do not define:
  \<^verbatim>\<open>parseFloat(v)\<close>, \<^verbatim>\<open>moment(v).isValid()\<close>, \<^verbatim>\<open>moment(v).toISOString()\<close>,
  the test of the e-mail regular expression, the time value of \<^verbatim>\<open>new Date(v)\<close>
  (milliseconds, \<^verbatim>\<open>NaN\<close> for an invalid date) and
  \<^verbatim>\<open>moment(v).format('YYYY-MM-DD')\<close>. They are parameters of the model.
\<close>

record platform =
  parseFloat :: "jsval \<Rightarrow> jsnum"
  moment_isValid :: "jsval \<Rightarrow> bool"
  moment_toISOString :: "jsval \<Rightarrow> jsval"
  emailRegex_test :: "jsval \<Rightarrow> bool"
  new_Date :: "jsval \<Rightarrow> jsnum"
  moment_format_day :: "jsval \<Rightarrow> string"

subsection \<open>Table descriptors (\<^verbatim>\<open>ETLConfig.mappings\<close>)\<close>

text \<open>
  A per-field transform is a function \<^verbatim>\<open>(value, sourceRow) => value\<close> that may throw
  (\<open>Inl\<close> carries the message); an entry of \<^verbatim>\<open>transformations\<close> that is not a function
  is \<open>TNotFunction\<close>.
\<close>

datatype transform_entry =
    TFunction "jsval \<Rightarrow> row \<Rightarrow> string + jsval"
  | TNotFunction

record validations =
  v_required :: "string list option"
  v_email :: "string option"
  v_numeric :: "string list option"
  v_positive :: "string list option"
  v_maxLength :: "(string \<times> nat) list option"
  v_unique :: "string list option"

record mapping =
  sourceTable :: string
  targetTable :: string
  primaryKey :: string
  incrementalField :: "string option"
  enabled :: bool
  fieldMapping :: "(string \<times> string) list"
  transformations :: "(string \<times> transform_entry) list option"
  mvalidations :: "validations option"

subsection \<open>Extractor: \<^verbatim>\<open>DataExtractor.extractTable\<close>\<close>

record extract_options =
  opt_batchSize :: "int option"
  opt_offset :: "int option"

record extract_metadata =
  md_table :: string
  md_recordCount :: nat
  md_batchSize :: int
  md_offset :: int
  hasMore :: bool

datatype extract_error =
    ConnectError
  | TableNotConfigured string
  | QueryError string

text \<open>
  \<^verbatim>\<open>extractTable\<close> never rejects: its \<^verbatim>\<open>catch\<close> turns every error into
  \<^verbatim>\<open>{success: false, error, ...}\<close>, which carries no \<^verbatim>\<open>hasMore\<close>.
\<close>

datatype extract_result =
    ExtractOk "row list" extract_metadata
  | ExtractFail extract_error

text \<open>What the source database does at this call: the answers of \<^verbatim>\<open>connect\<close> and of the query.\<close>

record source_db =
  connect_ok :: bool
  query_result :: "string + row list"

definition effective_batchSize :: "int \<Rightarrow> extract_options \<Rightarrow> int" where
  "effective_batchSize cfgBatch opts =
     (case opt_batchSize opts of None \<Rightarrow> cfgBatch | Some b \<Rightarrow> b)"

definition extractTable ::
  "int \<Rightarrow> (string \<rightharpoonup> 'm mapping_scheme) \<Rightarrow> source_db \<Rightarrow> string \<Rightarrow> extract_options \<Rightarrow> extract_result"
where
  "extractTable cfgBatch mappings db tableName opts =
     (let batchSize = effective_batchSize cfgBatch opts;
          offset = (case opt_offset opts of None \<Rightarrow> 0 | Some k \<Rightarrow> k)
      in if \<not> connect_ok db then ExtractFail ConnectError
         else (case mappings tableName of
                 None \<Rightarrow> ExtractFail (TableNotConfigured tableName)
               | Some m \<Rightarrow>
                   if \<not> enabled m then ExtractFail (TableNotConfigured tableName)
                   else (case query_result db of
                           Inl e \<Rightarrow> ExtractFail (QueryError e)
                         | Inr rows \<Rightarrow>
                             ExtractOk rows
                               \<lparr> md_table = sourceTable m,
                                 md_recordCount = length rows,
                                 md_batchSize = batchSize,
                                 md_offset = offset,
                                 hasMore = (int (length rows) = batchSize) \<rparr>)))"

subsection \<open>Transformer: \<^verbatim>\<open>DataTransformer\<close>\<close>

text \<open>\<^verbatim>\<open>mapFields\<close>: project the source row through \<^verbatim>\<open>fieldMapping\<close>, in entry order.\<close>

definition mapFields :: "row \<Rightarrow> (string \<times> string) list \<Rightarrow> row" where
  "mapFields sourceRecord fm =
     foldl (\<lambda>mapped (sourceField, targetField).
              case sourceRecord sourceField of
                None \<Rightarrow> mapped
              | Some v \<Rightarrow> mapped(targetField \<mapsto> v))
           Map.empty fm"

text \<open>
  \<^verbatim>\<open>applyDefaultTransformations\<close>. The body of the \<^verbatim>\<open>forEach\<close> for one entry
  \<^verbatim>\<open>[field, value]\<close>: four successive \<^verbatim>\<open>if\<close> blocks, each testing the \<^emph>\<open>original\<close>
  \<^verbatim>\<open>value\<close> and overwriting \<^verbatim>\<open>transformed[field]\<close>.
\<close>

definition is_date_field :: "string \<Rightarrow> bool" where
  "is_date_field field =
     (js_includes field ''_at'' \<or> js_includes field ''_date'' \<or> js_includes field ''date_'')"

definition is_number_field :: "string \<Rightarrow> bool" where
  "is_number_field field =
     (js_includes field ''amount'' \<or> js_includes field ''_id'' \<or> field = ''id'')"

definition is_bool_string :: "jsval \<Rightarrow> bool" where
  "is_bool_string value =
     (case value of
        VStr s \<Rightarrow> toLowerCase s = ''true'' \<or> toLowerCase s = ''false''
      | _ \<Rightarrow> False)"

definition clean_string :: "jsval \<Rightarrow> jsval" where
  "clean_string value =
     (case value of
        VStr s \<Rightarrow> if trim s = [] then VNull else VStr (trim s)
      | _ \<Rightarrow> value)"

definition convert_date :: "'p platform_scheme \<Rightarrow> string \<Rightarrow> jsval \<Rightarrow> jsval \<Rightarrow> jsval" where
  "convert_date P field value cur =
     (if is_date_field field then
        (if truthy value \<and> \<not> moment_isValid P value then VNull
         else if truthy value then moment_toISOString P value
         else cur)
      else cur)"

definition convert_number :: "'p platform_scheme \<Rightarrow> string \<Rightarrow> jsval \<Rightarrow> jsval \<Rightarrow> jsval" where
  "convert_number P field value cur =
     (if is_number_field field then
        (if value \<noteq> VNull \<and> value \<noteq> VUndefined \<and> value \<noteq> VStr [] then
           (case parseFloat P value of NaN \<Rightarrow> cur | Num q \<Rightarrow> VNum (Num q))
         else cur)
      else cur)"

definition convert_bool :: "jsval \<Rightarrow> jsval \<Rightarrow> jsval" where
  "convert_bool value cur =
     (case value of
        VStr s \<Rightarrow>
          if toLowerCase s = ''true'' \<or> toLowerCase s = ''false''
          then VBool (toLowerCase s = ''true'') else cur
      | _ \<Rightarrow> cur)"

definition default_field :: "'p platform_scheme \<Rightarrow> string \<Rightarrow> jsval \<Rightarrow> jsval" where
  "default_field P field value =
     convert_bool value
       (convert_number P field value
          (convert_date P field value
             (clean_string value)))"

text \<open>
  The loop runs over \<^verbatim>\<open>Object.entries\<close> of a copy and assigns only to the key of the
  entry at hand, so the result holds, under every key of the input, the converted value.
\<close>

definition applyDefaultTransformations :: "'p platform_scheme \<Rightarrow> row \<Rightarrow> row" where
  "applyDefaultTransformations P record = (\<lambda>field. map_option (default_field P field) (record field))"

text \<open>
  \<^verbatim>\<open>applyTransformations\<close>. One step of the \<^verbatim>\<open>forEach\<close> over \<^verbatim>\<open>transformations\<close>:
  a transform that throws leaves the field as it is and logs a warning (the list of warned
  fields is the second component).
\<close>

definition transform_step ::
  "row \<Rightarrow> row \<times> string list \<Rightarrow> string \<times> transform_entry \<Rightarrow> row \<times> string list"
where
  "transform_step originalRecord acc entry =
     (case acc of (transformedRecord, warnings) \<Rightarrow>
      case entry of (field, transformFunction) \<Rightarrow>
        (case transformedRecord field of
           None \<Rightarrow> (transformedRecord, warnings)
         | Some v \<Rightarrow>
             (case transformFunction of
                TNotFunction \<Rightarrow> (transformedRecord, warnings)
              | TFunction f \<Rightarrow>
                  (case f v originalRecord of
                     Inl msg \<Rightarrow> (transformedRecord, warnings @ [field])
                   | Inr v' \<Rightarrow> (transformedRecord(field \<mapsto> v'), warnings)))))"

text \<open>
  After the loop the source executes
  \<^verbatim>\<open>transformedRecord = this.applyDefaultTransformations(transformedRecord)\<close>, where
  \<^verbatim>\<open>transformedRecord\<close> was declared with \<^verbatim>\<open>const\<close>: the right-hand side is
  evaluated and the assignment then throws
  \<^verbatim>\<open>TypeError: Assignment to constant variable.\<close> The \<^verbatim>\<open>return\<close> is never reached.
\<close>

definition const_assignment_error :: string where
  "const_assignment_error = ''Assignment to constant variable.''"

definition applyTransformations ::
  "'p platform_scheme \<Rightarrow> row \<Rightarrow> (string \<times> transform_entry) list \<Rightarrow> row
     \<Rightarrow> (string + row) \<times> string list"
where
  "applyTransformations P record transforms originalRecord =
     (case foldl (transform_step originalRecord) (record, []) transforms of
        (transformedRecord, warnings) \<Rightarrow>
          (let rhs = applyDefaultTransformations P transformedRecord
           in (Inl const_assignment_error, warnings)))"

text \<open>\<^verbatim>\<open>validateRecord\<close>: the errors found, and the record with \<^verbatim>\<open>_unique_fields\<close> set.\<close>

datatype validation_error =
    RequiredEmpty string
  | InvalidEmail string
  | NotNumeric string
  | NotPositive string
  | TooLong string nat
  | Thrown string

definition check_required :: "row \<Rightarrow> string \<Rightarrow> validation_error list" where
  "check_required record field = (if \<not> truthy (getProp record field) then [RequiredEmpty field] else [])"

definition check_email :: "'p platform_scheme \<Rightarrow> row \<Rightarrow> string \<Rightarrow> validation_error list" where
  "check_email P record emailField =
     (if truthy (getProp record emailField) \<and> \<not> emailRegex_test P (getProp record emailField)
      then [InvalidEmail emailField] else [])"

definition check_numeric :: "'p platform_scheme \<Rightarrow> row \<Rightarrow> string \<Rightarrow> validation_error list" where
  "check_numeric P record field =
     (if getProp record field \<noteq> VNull \<and> getProp record field \<noteq> VUndefined
         \<and> parseFloat P (getProp record field) = NaN
      then [NotNumeric field] else [])"

definition check_positive :: "'p platform_scheme \<Rightarrow> row \<Rightarrow> string \<Rightarrow> validation_error list" where
  "check_positive P record field =
     (if getProp record field \<noteq> VNull \<and> getProp record field \<noteq> VUndefined then
        (case parseFloat P (getProp record field) of
           NaN \<Rightarrow> []
         | Num q \<Rightarrow> if q \<le> 0 then [NotPositive field] else [])
      else [])"

definition check_maxLength :: "row \<Rightarrow> string \<times> nat \<Rightarrow> validation_error list" where
  "check_maxLength record entry =
     (case entry of (field, maxLength) \<Rightarrow>
        (case getProp record field of
           VStr s \<Rightarrow> if s \<noteq> [] \<and> length s > maxLength then [TooLong field maxLength] else []
         | _ \<Rightarrow> []))"

definition over :: "'a list option \<Rightarrow> ('a \<Rightarrow> validation_error list) \<Rightarrow> validation_error list" where
  "over xs chk = (case xs of None \<Rightarrow> [] | Some l \<Rightarrow> concat (map chk l))"

definition validateRecord ::
  "'p platform_scheme \<Rightarrow> row \<Rightarrow> 'v validations_scheme \<Rightarrow> (bool \<times> validation_error list) \<times> row"
where
  "validateRecord P record vs =
     (let errors =
            over (v_required vs) (check_required record)
          @ (case v_email vs of None \<Rightarrow> [] | Some f \<Rightarrow> if f = [] then [] else check_email P record f)
          @ over (v_numeric vs) (check_numeric P record)
          @ over (v_positive vs) (check_positive P record)
          @ over (v_maxLength vs) (check_maxLength record);
          record' = (case v_unique vs of
                       None \<Rightarrow> record
                     | Some u \<Rightarrow> record(''_unique_fields'' \<mapsto> VArr u))
      in ((errors = [], errors), record'))"

definition no_validations :: validations where
  "no_validations =
     \<lparr> v_required = None, v_email = None, v_numeric = None, v_positive = None,
       v_maxLength = None, v_unique = None \<rparr>"

text \<open>
  The \<^verbatim>\<open>successRate\<close> string
  \<^verbatim>\<open>((transformedData.length / sourceData.length) * 100).toFixed(2)\<close>.
  \<open>Fixed2 k\<close> is the decimal string of \<open>k / 100\<close> with two fraction digits (\<open>Fixed2 6667\<close>
  is \<^verbatim>\<open>"66.67"\<close>); \<^verbatim>\<open>0 / 0\<close> is \<^verbatim>\<open>NaN\<close> and prints as \<^verbatim>\<open>"NaN"\<close>; a non-zero
  count over zero is \<^verbatim>\<open>Infinity\<close>. For two positive counts the model rounds the exact
  quotient, where \<^verbatim>\<open>toFixed\<close> rounds the double nearest to it: the two can differ in
  the last digit when the exact value is a tie. With no record transformed the value is
  exactly 0.
\<close>

datatype fixed_string = StrNaN | StrInfinity | Fixed2 int

definition successRate :: "nat \<Rightarrow> nat \<Rightarrow> fixed_string" where
  "successRate transformed input =
     (if input = 0 then (if transformed = 0 then StrNaN else StrInfinity)
      else Fixed2 (round ((of_nat transformed / of_nat input :: rat) * 100 * 100)))"

record rejected_record =
  rj_sourceRecord :: row
  rj_errors :: "validation_error list"
  rj_rejectedAt :: string

record transform_stats =
  recordsProcessed :: nat
  recordsTransformed :: nat
  recordsRejected :: nat
  st_successRate :: fixed_string

record transform_result =
  transformedData :: "row list"
  rejectedRecords :: "rejected_record list"
  stats :: transform_stats
  warned :: "string list"

text \<open>
  The body of the \<^verbatim>\<open>for\<close> loop of \<^verbatim>\<open>transformTable\<close> for one source record, with its
  \<^verbatim>\<open>try\<close>/\<^verbatim>\<open>catch\<close>: the accumulator holds \<^verbatim>\<open>transformedData\<close>,
  \<^verbatim>\<open>rejectedRecords\<close> and the warnings logged. \<open>now\<close> is the clock reading.
\<close>

definition transform_record ::
  "'p platform_scheme \<Rightarrow> string \<Rightarrow> 'm mapping_scheme
     \<Rightarrow> row list \<times> rejected_record list \<times> string list \<Rightarrow> row
     \<Rightarrow> row list \<times> rejected_record list \<times> string list"
where
  "transform_record P now m acc sourceRecord =
     (case acc of (tdata, rejected, warns) \<Rightarrow>
        (let mappedRecord = mapFields sourceRecord (fieldMapping m)
         in case applyTransformations P mappedRecord
                   (case transformations m of None \<Rightarrow> [] | Some t \<Rightarrow> t) sourceRecord of
              (Inl msg, w) \<Rightarrow>
                (tdata,
                 rejected @ [\<lparr> rj_sourceRecord = sourceRecord, rj_errors = [Thrown msg],
                               rj_rejectedAt = now \<rparr>],
                 warns @ w)
            | (Inr transformedRecord, w) \<Rightarrow>
                (case validateRecord P transformedRecord
                        (case mvalidations m of None \<Rightarrow> no_validations | Some v \<Rightarrow> v) of
                   ((isValid, errors), validated) \<Rightarrow>
                     if isValid then
                       (tdata @ [validated(''_etl_metadata'' \<mapsto>
                                   VMetadata (sourceTable m) (targetTable m) now
                                     (getProp sourceRecord (primaryKey m)))],
                        rejected, warns @ w)
                     else
                       (tdata,
                        rejected @ [\<lparr> rj_sourceRecord = sourceRecord, rj_errors = errors,
                                      rj_rejectedAt = now \<rparr>],
                        warns @ w))))"

definition transformTable ::
  "'p platform_scheme \<Rightarrow> string \<Rightarrow> (string \<rightharpoonup> 'm mapping_scheme) \<Rightarrow> string \<Rightarrow> row list
     \<Rightarrow> string + transform_result"
where
  "transformTable P now mappings tableName sourceData =
     (case mappings tableName of
        None \<Rightarrow> Inl tableName
      | Some m \<Rightarrow>
          (case foldl (transform_record P now m) ([], [], []) sourceData of
             (tdata, rejected, warns) \<Rightarrow>
               Inr \<lparr> transformedData = tdata,
                     rejectedRecords = rejected,
                     stats = \<lparr> recordsProcessed = length sourceData,
                               recordsTransformed = length tdata,
                               recordsRejected = length rejected,
                               st_successRate = successRate (length tdata) (length sourceData) \<rparr>,
                     warned = warns \<rparr>))"

definition is_true_string :: "jsval \<Rightarrow> bool" where
  "is_true_string value = (case value of VStr s \<Rightarrow> toLowerCase s = ''true'' | _ \<Rightarrow> False)"

text \<open>
  The date and number columns as the specification words them (a name that \<^emph>\<open>ends in\<close>
  \<^verbatim>\<open>_at\<close> or \<^verbatim>\<open>_date\<close> or \<^emph>\<open>begins with\<close> \<^verbatim>\<open>date_\<close>; a name that equals
  \<^verbatim>\<open>id\<close>, contains \<^verbatim>\<open>amount\<close> or \<^emph>\<open>ends in\<close> \<^verbatim>\<open>_id\<close>), to be compared with
  \<open>is_date_field\<close> and \<open>is_number_field\<close> of the source.
\<close>

definition spec_date_column :: "string \<Rightarrow> bool" where
  "spec_date_column field =
     (endsWith field ''_at'' \<or> endsWith field ''_date'' \<or> startsWith field ''date_'')"

definition spec_number_column :: "string \<Rightarrow> bool" where
  "spec_number_column field =
     (field = ''id'' \<or> js_includes field ''amount'' \<or> endsWith field ''_id'')"

text \<open>A concrete platform and table descriptor, for evaluating the transformer.\<close>

definition example_platform :: platform where
  "example_platform =
     \<lparr> parseFloat = (\<lambda>v. case v of VNum n \<Rightarrow> n | _ \<Rightarrow> NaN),
       moment_isValid = (\<lambda>v. case v of VObj _ \<Rightarrow> True | _ \<Rightarrow> False),
       moment_toISOString = (\<lambda>v. v),
       emailRegex_test = (\<lambda>v. True),
       new_Date = (\<lambda>v. case v of VNum n \<Rightarrow> n | _ \<Rightarrow> NaN),
       moment_format_day = (\<lambda>v. case v of VStr s \<Rightarrow> take 10 s | _ \<Rightarrow> ''Invalid date'') \<rparr>"

definition example_mapping :: mapping where
  "example_mapping =
     \<lparr> sourceTable = ''users'', targetTable = ''affiliates'', primaryKey = ''id'',
       incrementalField = Some ''updated_at'', enabled = True,
       fieldMapping = [(''id'', ''external_user_id''), (''status'', ''status'')],
       transformations = Some [(''status'', TFunction (\<lambda>v r. Inl ''status transform failed''))],
       mvalidations = None \<rparr>"

subsection \<open>Loader: \<^verbatim>\<open>DataLoader.loadRecord\<close> and \<^verbatim>\<open>DataLoader.loadBatch\<close>\<close>

text \<open>An error object with its \<^verbatim>\<open>code\<close> (the SQLSTATE, when the database raised it).\<close>

datatype js_error = JsError (code: "string option") (message: string)

record load_stats =
  recordsLoaded :: nat
  recordsSkipped :: nat
  recordsUpdated :: nat
  recordsInserted :: nat
  errors :: "(row \<times> js_error) list"

text \<open>
  \<^verbatim>\<open>loadBatch\<close> sends every statement of a batch on one connection between one
  \<^verbatim>\<open>BEGIN\<close> and one \<^verbatim>\<open>COMMIT\<close>, with no savepoint. PostgreSQL keeps the state of that
  transaction block: a statement that raises an error leaves the block aborted, every later
  statement in it is answered with SQLSTATE 25P02, and a \<^verbatim>\<open>COMMIT\<close> of an aborted block
  is answered, without an error, by rolling the block back.
\<close>

datatype txn_state = Active | Aborted

definition aborted_error :: js_error where
  "aborted_error = JsError (Some ''25P02'') ''current transaction is aborted''"

text \<open>
  One statement sent inside the transaction block; \<open>answer\<close> is what the database would
  answer to it in a block that is not aborted.
\<close>

definition statement :: "txn_state \<Rightarrow> js_error + 'a \<Rightarrow> (js_error + 'a) \<times> txn_state" where
  "statement txn answer =
     (case txn of
        Aborted \<Rightarrow> (Inl aborted_error, Aborted)
      | Active \<Rightarrow>
          (case answer of
             Inl e \<Rightarrow> (Inl e, Aborted)
           | Inr x \<Rightarrow> (Inr x, Active)))"

text \<open>
  What the target database would answer, in a block that is not aborted, to the statements
  of one record: to the \<^verbatim>\<open>SELECT\<close> of \<^verbatim>\<open>findExistingRecord\<close> (an error, or whether a
  row was found) and to the \<^verbatim>\<open>UPDATE\<close> or \<^verbatim>\<open>INSERT\<close> that follows; and what it
  answers to \<^verbatim>\<open>targetPool.connect()\<close> and to the three transaction statements of the
  batch.
\<close>

record record_answers =
  find_answer :: "js_error + bool"
  write_answer :: "js_error option"

record control_answers =
  connect_answer :: "js_error option"
  begin_answer :: "js_error option"
  commit_answer :: "js_error option"
  rollback_answer :: "js_error option"

definition keyField :: "'m mapping_scheme \<Rightarrow> string" where
  "keyField m =
     (if targetTable m = ''referrals'' then ''external_transaction_id''
      else if targetTable m = ''bet_activities'' then ''external_bet_id''
      else ''external_user_id'')"

definition findExistingRecord ::
  "'m mapping_scheme \<Rightarrow> record_answers \<Rightarrow> txn_state \<Rightarrow> row \<Rightarrow> (js_error + bool) \<times> txn_state"
where
  "findExistingRecord m ans txn cleanRecord =
     (if \<not> truthy (getProp cleanRecord (keyField m)) then (Inr False, txn)
      else statement txn (find_answer ans))"

datatype load_kind = Updated | Inserted

text \<open>The \<^verbatim>\<open>try\<close> block of \<^verbatim>\<open>loadRecord\<close> up to the counters.\<close>

definition upsert_attempt ::
  "'m mapping_scheme \<Rightarrow> record_answers \<Rightarrow> txn_state \<Rightarrow> row
     \<Rightarrow> (js_error + load_kind) \<times> txn_state"
where
  "upsert_attempt m ans txn record =
     (let cleanRecord = record |` (- {''_etl_metadata'', ''_unique_fields''})
      in case findExistingRecord m ans txn cleanRecord of
           (Inl e, txn1) \<Rightarrow> (Inl e, txn1)
         | (Inr existing, txn1) \<Rightarrow>
             (case statement txn1
                     (case write_answer ans of Some e \<Rightarrow> Inl e | None \<Rightarrow> Inr ()) of
                (Inl e, txn2) \<Rightarrow> (Inl e, txn2)
              | (Inr u, txn2) \<Rightarrow> (Inr (if existing then Updated else Inserted), txn2)))"

definition loadRecord ::
  "'m mapping_scheme \<Rightarrow> load_stats \<Rightarrow> txn_state \<Rightarrow> record_answers \<Rightarrow> row
     \<Rightarrow> (js_error + unit) \<times> load_stats \<times> txn_state"
where
  "loadRecord m st txn ans record =
     (case upsert_attempt m ans txn record of
        (Inr Updated, txn') \<Rightarrow>
          (Inr (), st\<lparr> recordsUpdated := recordsUpdated st + 1,
                      recordsLoaded := recordsLoaded st + 1 \<rparr>, txn')
      | (Inr Inserted, txn') \<Rightarrow>
          (Inr (), st\<lparr> recordsInserted := recordsInserted st + 1,
                      recordsLoaded := recordsLoaded st + 1 \<rparr>, txn')
      | (Inl e, txn') \<Rightarrow>
          (let st' = st\<lparr> errors := errors st @ [(record, e)] \<rparr>
           in if code e = Some ''23505''
              then (Inr (), st'\<lparr> recordsSkipped := recordsSkipped st' + 1 \<rparr>, txn')
              else (Inl e, st', txn')))"

text \<open>The \<^verbatim>\<open>for\<close> loop of \<^verbatim>\<open>loadBatch\<close>: the first error that escapes ends it.\<close>

fun load_records ::
  "'m mapping_scheme \<Rightarrow> load_stats \<Rightarrow> txn_state \<Rightarrow> (row \<times> record_answers) list
     \<Rightarrow> (js_error + unit) \<times> load_stats \<times> txn_state"
where
  "load_records m st txn [] = (Inr (), st, txn)"
| "load_records m st txn ((record, ans) # rest) =
     (case loadRecord m st txn ans record of
        (Inl e, st', txn') \<Rightarrow> (Inl e, st', txn')
      | (Inr u, st', txn') \<Rightarrow> load_records m st' txn' rest)"

text \<open>How the transaction of a batch ended in the database.\<close>

datatype txn_outcome = NotStarted | Committed | RolledBack

text \<open>
  The \<^verbatim>\<open>catch\<close> of \<^verbatim>\<open>loadBatch\<close>: issue \<^verbatim>\<open>ROLLBACK\<close> and rethrow (an error of the
  \<^verbatim>\<open>ROLLBACK\<close> itself replaces the one being handled).
\<close>

definition rollback ::
  "control_answers \<Rightarrow> js_error \<Rightarrow> load_stats \<Rightarrow> string list \<Rightarrow> txn_outcome
     \<Rightarrow> (js_error + unit) \<times> load_stats \<times> string list \<times> txn_outcome"
where
  "rollback ctl e st issued outcome =
     (case rollback_answer ctl of
        Some e' \<Rightarrow> (Inl e', st, issued @ [''ROLLBACK''], outcome)
      | None \<Rightarrow> (Inl e, st, issued @ [''ROLLBACK''], outcome))"

text \<open>
  \<^verbatim>\<open>loadBatch\<close> returns its outcome, the counters, the transaction statements it issued
  on the connection, in order, and how the transaction ended.
\<close>

definition loadBatch ::
  "control_answers \<Rightarrow> 'm mapping_scheme \<Rightarrow> load_stats \<Rightarrow> (row \<times> record_answers) list
     \<Rightarrow> (js_error + unit) \<times> load_stats \<times> string list \<times> txn_outcome"
where
  "loadBatch ctl m st batch =
     (case connect_answer ctl of
        Some e \<Rightarrow> (Inl e, st, [], NotStarted)
      | None \<Rightarrow>
          (case begin_answer ctl of
             Some e \<Rightarrow> rollback ctl e st [''BEGIN''] NotStarted
           | None \<Rightarrow>
               (case load_records m st Active batch of
                  (Inl e, st', txn) \<Rightarrow> rollback ctl e st' [''BEGIN''] RolledBack
                | (Inr u, st', txn) \<Rightarrow>
                    (case commit_answer ctl of
                       Some e \<Rightarrow> rollback ctl e st' [''BEGIN'', ''COMMIT''] RolledBack
                     | None \<Rightarrow>
                         (Inr (), st', [''BEGIN'', ''COMMIT''],
                          case txn of Active \<Rightarrow> Committed | Aborted \<Rightarrow> RolledBack)))))"

text \<open>A row whose own statements the database accepts.\<close>

definition row_succeeds :: "'m mapping_scheme \<Rightarrow> row \<times> record_answers \<Rightarrow> bool" where
  "row_succeeds m ra =
     (case fst (upsert_attempt m (snd ra) Active (fst ra)) of
        Inr k \<Rightarrow> True
      | Inl e \<Rightarrow> False)"

definition ok_control :: control_answers where
  "ok_control =
     \<lparr> connect_answer = None, begin_answer = None, commit_answer = None,
       rollback_answer = None \<rparr>"

definition empty_load_stats :: load_stats where
  "empty_load_stats =
     \<lparr> recordsLoaded = 0, recordsSkipped = 0, recordsUpdated = 0, recordsInserted = 0,
       errors = [] \<rparr>"

text \<open>
  Two rows for the target table \<^verbatim>\<open>affiliates\<close>: the database accepts the insert of the
  first and answers the insert of the second with a unique-constraint violation.
\<close>

definition accepted_row :: "row \<times> record_answers" where
  "accepted_row =
     ([''external_user_id'' \<mapsto> VNum (Num 7), ''username'' \<mapsto> VStr ''ana''],
      \<lparr> find_answer = Inr False, write_answer = None \<rparr>)"

definition duplicate_row :: "row \<times> record_answers" where
  "duplicate_row =
     ([''external_user_id'' \<mapsto> VNum (Num 8), ''username'' \<mapsto> VStr ''ana''],
      \<lparr> find_answer = Inr False,
        write_answer = Some (JsError (Some ''23505'') ''duplicate key value'') \<rparr>)"

subsection \<open>Scheduler: \<^verbatim>\<open>ETLScheduler\<close>\<close>

datatype job_kind = fullSync | incrementalSync | cleanup

record scheduler_stats =
  totalJobs :: nat
  successfulJobs :: nat
  failedJobs :: nat
  lastFullSync :: "string option"
  lastIncrementalSync :: "string option"
  lastCleanup :: "string option"

text \<open>
  The scheduler's members \<^verbatim>\<open>currentJobs\<close> and \<^verbatim>\<open>stats\<close> (here \<open>jobStats\<close>), the
  warnings logged, and for each kind the number of executions that are past the guard and
  have not reached their \<^verbatim>\<open>finally\<close> (\<open>running\<close>, a counter the code does not hold).
\<close>

record scheduler =
  currentJobs :: "job_kind set"
  jobStats :: scheduler_stats
  warnings :: "job_kind list"
  running :: "job_kind \<Rightarrow> nat"

text \<open>
  \<^verbatim>\<open>executeFullSync\<close>, \<^verbatim>\<open>executeIncrementalSync\<close> and \<^verbatim>\<open>executeCleanup\<close> open
  alike, each with its own kind: up to the first \<^verbatim>\<open>await\<close> the code runs without
  interruption, tests \<^verbatim>\<open>currentJobs.has\<close>, and either warns and returns or adds the
  kind and counts the job.
\<close>

definition execute_enter :: "job_kind \<Rightarrow> scheduler \<Rightarrow> scheduler" where
  "execute_enter k s =
     (if k \<in> currentJobs s then s\<lparr> warnings := warnings s @ [k] \<rparr>
      else s\<lparr> currentJobs := insert k (currentJobs s),
              jobStats := (jobStats s)\<lparr> totalJobs := totalJobs (jobStats s) + 1 \<rparr>,
              running := (running s)(k := running s k + 1) \<rparr>)"

definition set_last :: "job_kind \<Rightarrow> string \<Rightarrow> scheduler_stats \<Rightarrow> scheduler_stats" where
  "set_last k now st =
     (case k of
        fullSync \<Rightarrow> st\<lparr> lastFullSync := Some now \<rparr>
      | incrementalSync \<Rightarrow> st\<lparr> lastIncrementalSync := Some now \<rparr>
      | cleanup \<Rightarrow> st\<lparr> lastCleanup := Some now \<rparr>)"

text \<open>
  The end of an execution: the \<^verbatim>\<open>try\<close> block completed at time \<open>now\<close> (\<open>Some now\<close>) or
  threw (\<open>None\<close>), and \<^verbatim>\<open>finally\<close> deletes the kind from \<^verbatim>\<open>currentJobs\<close>.
\<close>

definition execute_leave :: "job_kind \<Rightarrow> string option \<Rightarrow> scheduler \<Rightarrow> scheduler" where
  "execute_leave k outcome s =
     s\<lparr> jobStats :=
          (case outcome of
             Some now \<Rightarrow>
               set_last k now
                 ((jobStats s)\<lparr> successfulJobs := successfulJobs (jobStats s) + 1 \<rparr>)
           | None \<Rightarrow> (jobStats s)\<lparr> failedJobs := failedJobs (jobStats s) + 1 \<rparr>),
        currentJobs := currentJobs s - {k},
        running := (running s)(k := running s k - 1) \<rparr>"

text \<open>
  A history of the scheduler is a list of events: a fire of a kind (cron or manual), or the
  end of a running execution. An end event for a kind with no running execution cannot
  happen and changes nothing.
\<close>

datatype event = Fire job_kind | Finish job_kind "string option"

fun step :: "scheduler \<Rightarrow> event \<Rightarrow> scheduler" where
  "step s (Fire k) = execute_enter k s"
| "step s (Finish k outcome) = (if running s k = 0 then s else execute_leave k outcome s)"

definition new_scheduler :: scheduler where
  "new_scheduler =
     \<lparr> currentJobs = {},
       jobStats = \<lparr> totalJobs = 0, successfulJobs = 0, failedJobs = 0, lastFullSync = None,
                    lastIncrementalSync = None, lastCleanup = None \<rparr>,
       warnings = [], running = (\<lambda>k. 0) \<rparr>"

definition run :: "event list \<Rightarrow> scheduler" where
  "run evs = foldl step new_scheduler evs"

subsection \<open>Period resolution: \<^verbatim>\<open>DataService.getPeriodRange\<close>\<close>

text \<open>
  A date is its time value, the milliseconds since 1970-01-01T00:00Z. \<^verbatim>\<open>moment\<close> works in
  the local time of the process, modelled by a fixed offset \<open>off\<close> (local time is UTC plus
  \<open>off\<close> milliseconds; daylight-saving changes are outside the model), and its
  \<^verbatim>\<open>startOf\<close> and \<^verbatim>\<open>endOf\<close> are modelled on the proleptic Gregorian calendar, with the
  week of the default locale \<^verbatim>\<open>en\<close>, which begins on Sunday.
\<close>

definition day_ms :: int where
  "day_ms = 86400000"

definition local_day :: "int \<Rightarrow> int \<Rightarrow> int" where
  "local_day off t = (t + off) div day_ms"

definition is_leap :: "int \<Rightarrow> bool" where
  "is_leap y = (y mod 4 = 0 \<and> (y mod 100 \<noteq> 0 \<or> y mod 400 = 0))"

definition year_length :: "int \<Rightarrow> int" where
  "year_length y = (if is_leap y then 366 else 365)"

text \<open>
  \<open>year_split y d\<close>: the year and the day within it (from 0) of the day that lies \<open>d\<close>
  days after the first of January of year \<open>y\<close>.
\<close>

function year_split :: "int \<Rightarrow> int \<Rightarrow> int \<times> int" where
  "year_split y d =
     (if d < 0 then year_split (y - 1) (d + year_length (y - 1))
      else if year_length y \<le> d then year_split (y + 1) (d - year_length y)
      else (y, d))"
  by pat_completeness auto
termination
  by (relation "measure (\<lambda>(y, d). if d < 0 then nat (- d) + 366 else nat d)")
     (auto simp: year_length_def split: if_splits)

definition month_length :: "int \<Rightarrow> nat \<Rightarrow> int" where
  "month_length y m =
     (if m = 2 then (if is_leap y then 29 else 28)
      else if m = 4 \<or> m = 6 \<or> m = 9 \<or> m = 11 then 30
      else 31)"

text \<open>\<open>month_split y m r\<close>: the month (from 1) and the day within it (from 0).\<close>

function month_split :: "int \<Rightarrow> nat \<Rightarrow> int \<Rightarrow> nat \<times> int" where
  "month_split y m r =
     (if m < 12 \<and> month_length y m \<le> r then month_split y (m + 1) (r - month_length y m)
      else (m, r))"
  by pat_completeness auto
termination
  by (relation "measure (\<lambda>(y, m, r). 12 - m)") auto

function days_from :: "int \<Rightarrow> nat \<Rightarrow> int" where
  "days_from y m = (if m < 12 then month_length y m + days_from y (m + 1) else month_length y m)"
  by pat_completeness auto
termination
  by (relation "measure (\<lambda>(y, m). 12 - m)") auto

declare year_split.simps [simp del] month_split.simps [simp del] days_from.simps [simp del]

text \<open>The civil date (year, month, day of the month) of a day number; day 0 is 1970-01-01.\<close>

definition civil :: "int \<Rightarrow> int \<times> nat \<times> int" where
  "civil d =
     (case year_split 1970 d of (y, r) \<Rightarrow>
        (case month_split y 1 r of (m, r') \<Rightarrow> (y, m, r' + 1)))"

text \<open>The day of the week, Sunday being 0; 1970-01-01 was a Thursday.\<close>

definition weekday :: "int \<Rightarrow> int" where
  "weekday d = (d + 4) mod 7"

datatype unit_of_time = Day | Week | Month | Year

definition first_day :: "unit_of_time \<Rightarrow> int \<Rightarrow> int" where
  "first_day u d =
     (case u of
        Day \<Rightarrow> d
      | Week \<Rightarrow> d - weekday d
      | Month \<Rightarrow> (case year_split 1970 d of (y, r) \<Rightarrow> d - snd (month_split y 1 r))
      | Year \<Rightarrow> d - snd (year_split 1970 d))"

definition day_count :: "unit_of_time \<Rightarrow> int \<Rightarrow> int" where
  "day_count u d =
     (case u of
        Day \<Rightarrow> 1
      | Week \<Rightarrow> 7
      | Month \<Rightarrow> (case year_split 1970 d of (y, r) \<Rightarrow> month_length y (fst (month_split y 1 r)))
      | Year \<Rightarrow> year_length (fst (year_split 1970 d)))"

text \<open>
  \<^verbatim>\<open>m.clone().startOf(u)\<close>: local midnight at the start of the period;
  \<^verbatim>\<open>m.clone().endOf(u)\<close>: the last millisecond of the period.
\<close>

definition startOf :: "int \<Rightarrow> unit_of_time \<Rightarrow> int \<Rightarrow> int" where
  "startOf off u t = first_day u (local_day off t) * day_ms - off"

definition endOf :: "int \<Rightarrow> unit_of_time \<Rightarrow> int \<Rightarrow> int" where
  "endOf off u t =
     (first_day u (local_day off t) + day_count u (local_day off t)) * day_ms - off - 1"

text \<open>
  \<^verbatim>\<open>getPeriodRange\<close>: the \<^verbatim>\<open>switch\<close> on \<^verbatim>\<open>periodType\<close>, whose \<^verbatim>\<open>default\<close> throws.
  \<^verbatim>\<open>'WEEKLY'\<close> asks \<^verbatim>\<open>moment\<close> for the unit \<^verbatim>\<open>'week'\<close>.
\<close>

definition getPeriodRange :: "int \<Rightarrow> int \<Rightarrow> string \<Rightarrow> string + int \<times> int" where
  "getPeriodRange off date periodType =
     (if periodType = ''DAILY'' then Inr (startOf off Day date, endOf off Day date)
      else if periodType = ''WEEKLY'' then Inr (startOf off Week date, endOf off Week date)
      else if periodType = ''MONTHLY'' then Inr (startOf off Month date, endOf off Month date)
      else if periodType = ''YEARLY'' then Inr (startOf off Year date, endOf off Year date)
      else Inl periodType)"

text \<open>
  The start of the ISO week, which begins on Monday, as the specification words the weekly
  period; to be compared with \<open>startOf off Week\<close>.
\<close>

definition spec_iso_week_start :: "int \<Rightarrow> int \<Rightarrow> int" where
  "spec_iso_week_start off t =
     (local_day off t - (weekday (local_day off t) + 6) mod 7) * day_ms - off"

subsection \<open>Analytics: the metric calculators of \<^verbatim>\<open>DataService\<close>\<close>

text \<open>\<^verbatim>\<open>x || 0\<close> on a number that may be missing.\<close>

fun num_or0 :: "jsnum option \<Rightarrow> jsnum" where
  "num_or0 None = Num 0"
| "num_or0 (Some NaN) = Num 0"
| "num_or0 (Some (Num q)) = Num q"


fun js_sub :: "jsnum \<Rightarrow> jsnum \<Rightarrow> jsnum" where
  "js_sub (Num a) (Num b) = Num (a - b)"
| "js_sub _ _ = NaN"





record metrics =
  m_total :: jsnum
  m_count :: nat
  m_avg :: jsnum
  m_first_date :: "jsnum option"
  m_last_date :: "jsnum option"





record activity_metrics =
  a_days_active :: nat
  a_sessions :: nat
  a_total_time :: nat


record result_metrics =
  r_wins :: jsnum
  r_losses :: jsnum


record cpa_metrics =
  c_qualified :: bool
  c_qualification_date :: "jsnum option"
  c_amount :: "jsnum option"


record user_data =
  ud_affiliate_id :: jsval
  ud_deposits :: "metrics option"
  ud_bets :: "metrics option"
  ud_activity :: "activity_metrics option"
  ud_results :: "result_metrics option"
  ud_cpa :: "cpa_metrics option"



subsection \<open>The \<^verbatim>\<open>user_analytics\<close> row and \<^verbatim>\<open>DataModel.upsertUserAnalytics\<close>\<close>

text \<open>
  The twenty-four columns a write carries. Column values are modelled at the precision the
  code passes them; the rounding of a \<^verbatim>\<open>DECIMAL\<close> column is outside the model. The three
  key columns and \<^verbatim>\<open>period_end\<close> are typed as non-null, as the table declares them.
\<close>

record analytics =
  user_id :: int
  affiliate_id :: jsval
  period_type :: string
  period_start :: int
  period_end :: int
  total_deposits :: jsnum
  deposit_count :: nat
  first_deposit_date :: "jsnum option"
  last_deposit_date :: "jsnum option"
  avg_deposit_amount :: jsnum
  total_bets :: jsnum
  bet_count :: nat
  first_bet_date :: "jsnum option"
  last_bet_date :: "jsnum option"
  avg_bet_amount :: jsnum
  days_active :: nat
  sessions_count :: nat
  total_session_time_minutes :: nat
  total_wins :: jsnum
  total_losses :: jsnum
  net_result :: jsnum
  cpa_qualified :: bool
  cpa_qualification_date :: "jsnum option"
  cpa_amount :: jsnum

definition count_or0 :: "nat option \<Rightarrow> nat" where
  "count_or0 x = (case x of None \<Rightarrow> 0 | Some n \<Rightarrow> n)"

text \<open>
  The object literal \<^verbatim>\<open>analytics\<close> of \<^verbatim>\<open>generateUserAnalytics\<close>
  (\<^verbatim>\<open>userData.deposits?.total || 0\<close> and so on).
\<close>

definition build_analytics :: "int \<Rightarrow> string \<Rightarrow> int \<Rightarrow> int \<Rightarrow> user_data \<Rightarrow> analytics" where
  "build_analytics userId periodType periodStart periodEnd userData =
     \<lparr> user_id = userId,
       affiliate_id = ud_affiliate_id userData,
       period_type = periodType,
       period_start = periodStart,
       period_end = periodEnd,
       total_deposits = num_or0 (map_option m_total (ud_deposits userData)),
       deposit_count = count_or0 (map_option m_count (ud_deposits userData)),
       first_deposit_date = Option.bind (ud_deposits userData) m_first_date,
       last_deposit_date = Option.bind (ud_deposits userData) m_last_date,
       avg_deposit_amount = num_or0 (map_option m_avg (ud_deposits userData)),
       total_bets = num_or0 (map_option m_total (ud_bets userData)),
       bet_count = count_or0 (map_option m_count (ud_bets userData)),
       first_bet_date = Option.bind (ud_bets userData) m_first_date,
       last_bet_date = Option.bind (ud_bets userData) m_last_date,
       avg_bet_amount = num_or0 (map_option m_avg (ud_bets userData)),
       days_active = count_or0 (map_option a_days_active (ud_activity userData)),
       sessions_count = count_or0 (map_option a_sessions (ud_activity userData)),
       total_session_time_minutes = count_or0 (map_option a_total_time (ud_activity userData)),
       total_wins = num_or0 (map_option r_wins (ud_results userData)),
       total_losses = num_or0 (map_option r_losses (ud_results userData)),
       net_result = js_sub (num_or0 (map_option r_wins (ud_results userData)))
                           (num_or0 (map_option r_losses (ud_results userData))),
       cpa_qualified = (case ud_cpa userData of None \<Rightarrow> False | Some c \<Rightarrow> c_qualified c),
       cpa_qualification_date = Option.bind (ud_cpa userData) c_qualification_date,
       cpa_amount = num_or0 (Option.bind (ud_cpa userData) c_amount) \<rparr>"

text \<open>The \<^verbatim>\<open>values\<close> array of \<^verbatim>\<open>upsertUserAnalytics\<close>: \<^verbatim>\<open>|| 0\<close> on the numbers.\<close>

definition upsert_values :: "analytics \<Rightarrow> analytics" where
  "upsert_values a =
     a\<lparr> total_deposits := num_or0 (Some (total_deposits a)),
        avg_deposit_amount := num_or0 (Some (avg_deposit_amount a)),
        total_bets := num_or0 (Some (total_bets a)),
        avg_bet_amount := num_or0 (Some (avg_bet_amount a)),
        total_wins := num_or0 (Some (total_wins a)),
        total_losses := num_or0 (Some (total_losses a)),
        net_result := num_or0 (Some (net_result a)),
        cpa_amount := num_or0 (Some (cpa_amount a)) \<rparr>"

text \<open>
  A stored row: the columns of a write, and \<^verbatim>\<open>id\<close>, \<^verbatim>\<open>last_updated\<close> and
  \<^verbatim>\<open>created_at\<close>, which the table fills by default on insertion.
\<close>

record ua_row =
  ua_id :: nat
  ua_data :: analytics
  last_updated :: int
  created_at :: int

type_synonym ua_key = "int \<times> string \<times> int"

definition key_of :: "analytics \<Rightarrow> ua_key" where
  "key_of a = (user_id a, period_type a, period_start a)"

definition row_key :: "ua_row \<Rightarrow> ua_key" where
  "row_key r = key_of (ua_data r)"

definition nonneg :: "jsnum \<Rightarrow> bool" where
  "nonneg x = (case x of Num q \<Rightarrow> 0 \<le> q | NaN \<Rightarrow> False)"

text \<open>
  The \<^verbatim>\<open>CHECK\<close> constraints of the table (\<^verbatim>\<open>valid_period_type\<close>, \<^verbatim>\<open>valid_period\<close>,
  \<^verbatim>\<open>positive_amounts\<close>; the counts are naturals), and its \<^verbatim>\<open>UNIQUE\<close> constraint.
  They are tested on the values as written; the database tests the value as the column
  holds it and also rejects a number outside the range of its \<^verbatim>\<open>INTEGER\<close> or
  \<^verbatim>\<open>DECIMAL\<close> column. The difference only moves the line between the writes that
  succeed and those that raise.
\<close>

definition table_checks :: "analytics \<Rightarrow> bool" where
  "table_checks a =
     (period_type a \<in> set [''DAILY'', ''WEEKLY'', ''MONTHLY'', ''YEARLY'']
      \<and> period_end a > period_start a
      \<and> nonneg (total_deposits a) \<and> nonneg (total_bets a))"

definition unique_keys :: "ua_row list \<Rightarrow> bool" where
  "unique_keys tbl = distinct (map row_key tbl)"

text \<open>
  \<^verbatim>\<open>DO UPDATE SET\<close>: every column of the write but the key is taken from
  \<^verbatim>\<open>EXCLUDED\<close>, and \<^verbatim>\<open>last_updated = CURRENT_TIMESTAMP\<close>.
\<close>

definition excluded_update :: "analytics \<Rightarrow> int \<Rightarrow> ua_row \<Rightarrow> ua_row" where
  "excluded_update v now r = r\<lparr> ua_data := v, last_updated := now \<rparr>"

text \<open>
  \<^verbatim>\<open>upsertUserAnalytics\<close>, with the semantics of
  \<^verbatim>\<open>INSERT ... ON CONFLICT (user_id, period_type, period_start) DO UPDATE ... RETURNING *\<close>
  on the table \<open>tbl\<close>; \<open>conn\<close> is an error of the connection or of the statement, \<open>now\<close>
  the database clock and \<open>newid\<close> the generated \<^verbatim>\<open>id\<close>.
\<close>

definition upsertUserAnalytics ::
  "js_error option \<Rightarrow> int \<Rightarrow> nat \<Rightarrow> ua_row list \<Rightarrow> analytics
     \<Rightarrow> (js_error + ua_row) \<times> ua_row list"
where
  "upsertUserAnalytics conn now newid tbl analyticsData =
     (case conn of
        Some e \<Rightarrow> (Inl e, tbl)
      | None \<Rightarrow>
          (let v = upsert_values analyticsData in
           if \<not> table_checks v then (Inl (JsError (Some ''23514'') ''check constraint''), tbl)
           else
             (case find (\<lambda>r. row_key r = key_of v) tbl of
                None \<Rightarrow>
                  (let r = \<lparr> ua_id = newid, ua_data = v, last_updated = now, created_at = now \<rparr>
                   in (Inr r, tbl @ [r]))
              | Some old \<Rightarrow>
                  (Inr (excluded_update v now old),
                   map (\<lambda>r. if row_key r = key_of v then excluded_update v now r else r)
                     tbl))))"






definition first_write :: analytics where
  "first_write =
     build_analytics 42 ''DAILY'' 1741564800000 1741651199999
       \<lparr> ud_affiliate_id = VNum (Num 9), ud_deposits = None, ud_bets = None,
         ud_activity = None, ud_results = None, ud_cpa = None \<rparr>"

definition second_write :: analytics where
  "second_write = first_write\<lparr> total_deposits := Num 50, deposit_count := 3 \<rparr>"

definition first_row :: ua_row where
  "first_row =
     \<lparr> ua_id = 1, ua_data = upsert_values first_write, last_updated = 100, created_at = 100 \<rparr>"

definition second_row :: ua_row where
  "second_row =
     \<lparr> ua_id = 1, ua_data = upsert_values second_write, last_updated = 200,
       created_at = 100 \<rparr>"

subsection \<open>\<^verbatim>\<open>DataService.syncExternalData\<close>\<close>

text \<open>
  \<^verbatim>\<open>options.batchSize || syncSettings.batch_size || 1000\<close> on numbers that may be
  missing: a missing number and 0 are falsy.
\<close>

definition pick_batchSize :: "int option \<Rightarrow> int option \<Rightarrow> int" where
  "pick_batchSize optionsBatchSize settingsBatchSize =
     (case optionsBatchSize of
        Some a \<Rightarrow>
          if a \<noteq> 0 then a
          else (case settingsBatchSize of
                  Some b \<Rightarrow> if b \<noteq> 0 then b else 1000
                | None \<Rightarrow> 1000)
      | None \<Rightarrow>
          (case settingsBatchSize of
             Some b \<Rightarrow> if b \<noteq> 0 then b else 1000
           | None \<Rightarrow> 1000))"

text \<open>
  \<^verbatim>\<open>_.chunk(array, size)\<close> of lodash: no chunk at all for a size below 1, else slices of
  that many elements, the last one shorter when the length is no multiple.
\<close>

function chunk_list :: "nat \<Rightarrow> 'a list \<Rightarrow> 'a list list" where
  "chunk_list n xs = (if n = 0 \<or> xs = [] then [] else take n xs # chunk_list n (drop n xs))"
  by pat_completeness auto
termination
  by (relation "measure (\<lambda>(n, xs). length xs)") auto

declare chunk_list.simps [simp del]

definition lodash_chunk :: "'a list \<Rightarrow> int \<Rightarrow> 'a list list" where
  "lodash_chunk xs n = (if n < 1 then [] else chunk_list (nat n) xs)"

text \<open>
  \<^verbatim>\<open>getExternalData(tableName, filters, limit)\<close>. \<open>ext\<close> is what the external database
  answers to the query without its \<^verbatim>\<open>LIMIT\<close>: an error, or the rows that match the
  filters, in order. A truthy \<open>limit\<close> appends \<^verbatim>\<open>LIMIT $n\<close>, which PostgreSQL rejects when
  negative (SQLSTATE 2201W) and which otherwise keeps the first \<open>limit\<close> rows.
\<close>

definition getExternalData :: "js_error + row list \<Rightarrow> int \<Rightarrow> js_error + row list" where
  "getExternalData ext limit =
     (case ext of
        Inl e \<Rightarrow> Inl e
      | Inr rows \<Rightarrow>
          if limit \<noteq> 0 then
            (if limit < 0 then Inl (JsError (Some ''2201W'') ''LIMIT must not be negative'')
             else Inr (take (nat limit) rows))
          else Inr rows)"

datatype log_message = FailedCount nat | ErrorMessage string

text \<open>
  The \<^verbatim>\<open>data_sync_logs\<close> row of one sync, as far as \<^verbatim>\<open>updateSyncLog\<close> sets it (the
  times are left out). \<^verbatim>\<open>createSyncLog\<close> inserts it with the defaults of the table.
\<close>

record sync_log =
  records_processed :: nat
  records_success :: nat
  records_failed :: nat
  status :: string
  error_message :: "log_message option"

definition created_log :: sync_log where
  "created_log =
     \<lparr> records_processed = 0, records_success = 0, records_failed = 0, status = ''RUNNING'',
       error_message = None \<rparr>"

record sync_result =
  sr_recordsProcessed :: nat
  sr_recordsSuccess :: nat
  sr_recordsFailed :: nat

text \<open>
  The surroundings of one call: \<^verbatim>\<open>syncSettings.batch_size\<close>, the answer of
  \<^verbatim>\<open>createSyncLog\<close>, the external database, whether \<^verbatim>\<open>processDataChunk\<close> completes on
  a chunk (or throws), and the answers of the \<^verbatim>\<open>updateSyncLog\<close> calls in the \<^verbatim>\<open>try\<close>
  block and in the \<^verbatim>\<open>catch\<close> block.
\<close>

record sync_env =
  settings_batch_size :: "int option"
  create_answer :: "js_error option"
  external_rows :: "js_error + row list"
  chunk_completes :: "row list \<Rightarrow> bool"
  update_in_try :: "js_error option"
  update_in_catch :: "js_error option"

record sync_options =
  so_batchSize :: "int option"

text \<open>The \<^verbatim>\<open>for\<close> loop over the chunks, on the pair of counters (success, failed).\<close>

definition count_chunk :: "(row list \<Rightarrow> bool) \<Rightarrow> nat \<times> nat \<Rightarrow> row list \<Rightarrow> nat \<times> nat" where
  "count_chunk completes acc chunk =
     (case acc of (recordsSuccess, recordsFailed) \<Rightarrow>
        if completes chunk then (recordsSuccess + length chunk, recordsFailed)
        else (recordsSuccess, recordsFailed + length chunk))"

text \<open>The \<^verbatim>\<open>catch\<close> block: write status \<^verbatim>\<open>FAILED\<close> and rethrow.\<close>

definition sync_failed ::
  "'e sync_env_scheme \<Rightarrow> js_error \<Rightarrow> nat \<Rightarrow> nat \<Rightarrow> nat \<Rightarrow> (js_error + sync_result) \<times> sync_log option"
where
  "sync_failed env e nProcessed nSuccess nFailed =
     (case update_in_catch env of
        Some e' \<Rightarrow> (Inl e', Some created_log)
      | None \<Rightarrow>
          (Inl e,
           Some \<lparr> records_processed = nProcessed, records_success = nSuccess,
                  records_failed = nFailed, status = ''FAILED'',
                  error_message = Some (ErrorMessage (message e)) \<rparr>))"

text \<open>
  \<^verbatim>\<open>syncExternalData\<close>: its outcome and the final state of its log row (none when
  \<^verbatim>\<open>createSyncLog\<close> failed).
\<close>

definition syncExternalData ::
  "'e sync_env_scheme \<Rightarrow> 'o sync_options_scheme \<Rightarrow> (js_error + sync_result) \<times> sync_log option"
where
  "syncExternalData env options =
     (let batchSize = pick_batchSize (so_batchSize options) (settings_batch_size env) in
      case create_answer env of
        Some e \<Rightarrow> (Inl e, None)
      | None \<Rightarrow>
          (case getExternalData (external_rows env) batchSize of
             Inl e \<Rightarrow> sync_failed env e 0 0 0
           | Inr externalData \<Rightarrow>
               (let recordsProcessed = length externalData;
                    chunks = lodash_chunk externalData (min batchSize 100)
                in case foldl (count_chunk (chunk_completes env)) (0, 0) chunks of
                     (recordsSuccess, recordsFailed) \<Rightarrow>
                       (case update_in_try env of
                          Some e \<Rightarrow>
                            sync_failed env e recordsProcessed recordsSuccess recordsFailed
                        | None \<Rightarrow>
                            (Inr \<lparr> sr_recordsProcessed = recordsProcessed,
                                   sr_recordsSuccess = recordsSuccess,
                                   sr_recordsFailed = recordsFailed \<rparr>,
                             Some \<lparr> records_processed = recordsProcessed,
                                    records_success = recordsSuccess,
                                    records_failed = recordsFailed,
                                    status = (if recordsFailed = 0 then ''COMPLETED''
                                              else ''COMPLETED''),
                                    error_message =
                                      (if recordsFailed > 0
                                       then Some (FailedCount recordsFailed)
                                       else None) \<rparr>)))))"

definition example_sync_env :: sync_env where
  "example_sync_env =
     \<lparr> settings_batch_size = Some 1000,
       create_answer = None,
       external_rows = Inr [[''id'' \<mapsto> VNum (Num 1)], [''id'' \<mapsto> VNum (Num 2)],
                            [''id'' \<mapsto> VNum (Num 3)]],
       chunk_completes = (\<lambda>chunk. length chunk = 2),
       update_in_try = None,
       update_in_catch = None \<rparr>"

section \<open>Theorems\<close>

subsection \<open>Extractor\<close>

text \<open>
  Claim C5. Whenever \<^verbatim>\<open>extractTable\<close> returns a batch read with batch size \<open>N\<close>, the
  result reports \<open>hasMore = true\<close> exactly when the number of returned rows equals \<open>N\<close>;
  in particular fewer than \<open>N\<close> rows give \<open>hasMore = false\<close>.
\<close>

theorem extractTable_hasMore:
  assumes "extractTable cfgBatch mappings db tableName opts = ExtractOk rows md"
    and "N = effective_batchSize cfgBatch opts"
  shows "(hasMore md \<longleftrightarrow> int (length rows) = N)
         \<and> (int (length rows) < N \<longrightarrow> \<not> hasMore md)
         \<and> md_recordCount md = length rows"
  using assms
  by (auto simp: extractTable_def Let_def split: if_splits option.splits sum.splits)

theorem extractTable_hasMore_witness:
  "extractTable 1000
     [''users'' \<mapsto> \<lparr> sourceTable = ''users'', targetTable = ''affiliates'', primaryKey = ''id'',
                     incrementalField = Some ''updated_at'', enabled = True,
                     fieldMapping = [], transformations = None, mvalidations = None \<rparr>]
     \<lparr> connect_ok = True, query_result = Inr [Map.empty, Map.empty] \<rparr> ''users''
     \<lparr> opt_batchSize = Some 2, opt_offset = None \<rparr>
   = ExtractOk [Map.empty, Map.empty]
       \<lparr> md_table = ''users'', md_recordCount = 2, md_batchSize = 2, md_offset = 0, hasMore = True \<rparr>
   \<and> (2::int) = effective_batchSize 1000 \<lparr> opt_batchSize = Some 2, opt_offset = None \<rparr>
   \<and> hasMore \<lparr> md_table = ''users'', md_recordCount = 2, md_batchSize = 2, md_offset = 0,
                  hasMore = True \<rparr>"
proof -
  have run: "extractTable 1000
     [''users'' \<mapsto> \<lparr> sourceTable = ''users'', targetTable = ''affiliates'', primaryKey = ''id'',
                     incrementalField = Some ''updated_at'', enabled = True,
                     fieldMapping = [], transformations = None, mvalidations = None \<rparr>]
     \<lparr> connect_ok = True, query_result = Inr [Map.empty, Map.empty] \<rparr> ''users''
     \<lparr> opt_batchSize = Some 2, opt_offset = None \<rparr>
   = ExtractOk [Map.empty, Map.empty]
       \<lparr> md_table = ''users'', md_recordCount = 2, md_batchSize = 2, md_offset = 0, hasMore = True \<rparr>"
    by (simp add: extractTable_def effective_batchSize_def)
  have n: "(2::int) = effective_batchSize 1000 \<lparr> opt_batchSize = Some 2, opt_offset = None \<rparr>"
    by (simp add: effective_batchSize_def)
  from extractTable_hasMore [OF run n] run n show ?thesis by simp
qed

subsection \<open>Transformer\<close>

lemma applyTransformations_throws:
  "fst (applyTransformations P record transforms originalRecord) = Inl const_assignment_error"
  by (simp add: applyTransformations_def split: prod.splits)

lemma transform_record_rejects:
  assumes "transform_record P now m (tdata, rejected, warns) r = (tdata', rejected', warns')"
  shows "tdata' = tdata \<and> length rejected' = Suc (length rejected)"
  using assms
    applyTransformations_throws [of P "mapFields r (fieldMapping m)"
      "case transformations m of None \<Rightarrow> [] | Some t \<Rightarrow> t" r]
  by (auto simp: transform_record_def Let_def split: prod.splits sum.splits)

lemma foldl_transform_record:
  "foldl (transform_record P now m) (tdata, rejected, warns) rs = (tdata', rejected', warns')
   \<Longrightarrow> tdata' = tdata \<and> length rejected' = length rejected + length rs"
proof (induction rs arbitrary: tdata rejected warns)
  case Nil
  then show ?case by simp
next
  case (Cons r rs)
  obtain t1 r1 w1 where s: "transform_record P now m (tdata, rejected, warns) r = (t1, r1, w1)"
    by (metis prod_cases3)
  from transform_record_rejects [OF s]
  have a: "t1 = tdata" "length r1 = Suc (length rejected)" by auto
  from Cons.prems s
  have "foldl (transform_record P now m) (t1, r1, w1) rs = (tdata', rejected', warns')"
    by simp
  from Cons.IH [OF this] a show ?case by simp
qed

text \<open>
  Whatever the batch, the mapping and the transforms, \<^verbatim>\<open>transformTable\<close> accepts no
  record: each one ends in \<^verbatim>\<open>rejectedRecords\<close>.
\<close>

lemma transformTable_accepts_nothing:
  assumes "transformTable P now mappings tableName sourceData = Inr res"
  shows "transformedData res = [] \<and> length (rejectedRecords res) = length sourceData"
proof -
  from assms obtain m where m: "mappings tableName = Some m"
    by (auto simp: transformTable_def split: option.splits)
  obtain t r w where f: "foldl (transform_record P now m) ([], [], []) sourceData = (t, r, w)"
    by (metis prod_cases3)
  from foldl_transform_record [OF f] assms m f show ?thesis
    by (auto simp: transformTable_def)
qed

text \<open>
  Claim C1 (the code departs from it). The claim: a per-field transform that raises leaves
  the field at its old value, a warning is recorded, and the row is not rejected. The code
  at a row whose \<^verbatim>\<open>status\<close> transform throws: the warning is logged, but
  \<^verbatim>\<open>applyTransformations\<close> then throws on its assignment to a \<^verbatim>\<open>const\<close>, and
  \<^verbatim>\<open>transformTable\<close> puts the row in \<^verbatim>\<open>rejectedRecords\<close>.
\<close>

theorem transformTable_rejects_row_after_transform_error:
  "transformTable example_platform ''2025-03-10T14:22:00.000Z'' [''users'' \<mapsto> example_mapping]
       ''users'' [[''id'' \<mapsto> VNum (Num 7), ''status'' \<mapsto> VStr ''active'']]
   = Inr \<lparr> transformedData = [],
           rejectedRecords =
             [\<lparr> rj_sourceRecord = [''id'' \<mapsto> VNum (Num 7), ''status'' \<mapsto> VStr ''active''],
                rj_errors = [Thrown ''Assignment to constant variable.''],
                rj_rejectedAt = ''2025-03-10T14:22:00.000Z'' \<rparr>],
           stats = \<lparr> recordsProcessed = 1, recordsTransformed = 0, recordsRejected = 1,
                     st_successRate = Fixed2 0 \<rparr>,
           warned = [''status''] \<rparr>"
  by (simp add: transformTable_def transform_record_def applyTransformations_def
      example_mapping_def mapFields_def transform_step_def const_assignment_error_def
      successRate_def)

lemma successRate_none_transformed: "0 < input \<Longrightarrow> successRate 0 input = Fixed2 0"
  by (simp add: successRate_def)

text \<open>
  Claim C9 (the code departs from it). The claim: \<^verbatim>\<open>successRate\<close> is
  \<^verbatim>\<open>transformed / input\<close> as a percentage, and \<^verbatim>\<open>100.00\<close> for the empty batch. The
  code at the empty batch divides zero by zero and reports \<^verbatim>\<open>"NaN"\<close>.
\<close>

theorem transformTable_empty_batch_successRate:
  "transformTable example_platform ''2025-03-10T14:22:00.000Z'' [''users'' \<mapsto> example_mapping]
       ''users'' []
   = Inr \<lparr> transformedData = [], rejectedRecords = [],
           stats = \<lparr> recordsProcessed = 0, recordsTransformed = 0, recordsRejected = 0,
                     st_successRate = StrNaN \<rparr>,
           warned = [] \<rparr>"
  by (simp add: transformTable_def successRate_def)

text \<open>
  Claim C6, as stated, fails: the column \<^verbatim>\<open>last_attempt\<close> neither ends in \<^verbatim>\<open>_at\<close> or
  \<^verbatim>\<open>_date\<close> nor begins with \<^verbatim>\<open>date_\<close>, yet the pass treats it as a timestamp and
  replaces its unparseable value \<^verbatim>\<open>"n/a"\<close> by null.
\<close>

theorem applyDefaultTransformations_date_column_counterexample:
  "\<not> spec_date_column ''last_attempt''
   \<and> applyDefaultTransformations example_platform [''last_attempt'' \<mapsto> VStr ''n/a'']
         ''last_attempt'' = Some VNull"
  by (simp add: spec_date_column_def endsWith_def applyDefaultTransformations_def
      default_field_def convert_bool_def convert_number_def convert_date_def clean_string_def
      is_date_field_def is_number_field_def example_platform_def toLowerCase_def lower_char_def
      trim_def is_ws_def)

text \<open>
  Claim C6, amended. For every record, the default coercion pass keeps the record's keys and
  gives each field, from its input value alone, the first of: the boolean, when the value is
  a string equal to \<^verbatim>\<open>"true"\<close> or \<^verbatim>\<open>"false"\<close> case-insensitively; the number
  \<^verbatim>\<open>parseFloat(value)\<close>, when the column name equals \<^verbatim>\<open>id\<close> or \<^emph>\<open>contains\<close>
  \<^verbatim>\<open>amount\<close> or \<^verbatim>\<open>_id\<close>, the value is not null, undefined or the empty string and
  the parse is not NaN; the ISO timestamp, or null for an invalid parse, when the column name
  \<^emph>\<open>contains\<close> \<^verbatim>\<open>_at\<close>, \<^verbatim>\<open>_date\<close> or \<^verbatim>\<open>date_\<close> and the value is truthy; the
  whitespace-trimmed string, or null when that is empty, for a string; the value itself
  otherwise.
\<close>

theorem applyDefaultTransformations_coercions:
  "applyDefaultTransformations P record field =
     map_option (\<lambda>value.
       if is_bool_string value then VBool (is_true_string value)
       else if (field = ''id'' \<or> js_includes field ''amount'' \<or> js_includes field ''_id'')
               \<and> value \<noteq> VNull \<and> value \<noteq> VUndefined \<and> value \<noteq> VStr []
               \<and> parseFloat P value \<noteq> NaN
         then VNum (parseFloat P value)
       else if (js_includes field ''_at'' \<or> js_includes field ''_date''
                 \<or> js_includes field ''date_'') \<and> truthy value
         then (if moment_isValid P value then moment_toISOString P value else VNull)
       else (case value of
               VStr s \<Rightarrow> if trim s = [] then VNull else VStr (trim s)
             | _ \<Rightarrow> value))
       (record field)"
proof (cases "record field")
  case None
  then show ?thesis by (simp add: applyDefaultTransformations_def)
next
  case (Some v)
  show ?thesis
  proof (cases "is_bool_string v")
    case True
    then obtain s where "v = VStr s" "toLowerCase s = ''true'' \<or> toLowerCase s = ''false''"
      by (auto simp: is_bool_string_def split: jsval.splits)
    then show ?thesis using True Some
      by (auto simp: applyDefaultTransformations_def default_field_def convert_bool_def
          is_true_string_def)
  next
    case False
    then have b: "convert_bool v cur = cur" for cur
      by (auto simp: is_bool_string_def convert_bool_def split: jsval.splits)
    show ?thesis using False Some
      by (auto simp: applyDefaultTransformations_def default_field_def b convert_number_def
          convert_date_def clean_string_def is_number_field_def is_date_field_def
          split: jsnum.splits)
  qed
qed

subsection \<open>Loader\<close>

lemma statement_active:
  "statement txn answer = (res, txn') \<Longrightarrow>
   (txn' = Active \<longleftrightarrow> txn = Active \<and> \<not> isl res) \<and> (txn = Aborted \<longrightarrow> isl res)"
  by (auto simp: statement_def split: txn_state.splits sum.splits)

lemma upsert_attempt_active:
  assumes "upsert_attempt m ans txn r = (res, txn')"
  shows "txn' = Active \<longleftrightarrow> txn = Active \<and> \<not> isl res"
proof -
  let ?clean = "r |` (- {''_etl_metadata'', ''_unique_fields''})"
  let ?w = "case write_answer ans of Some e \<Rightarrow> Inl e | None \<Rightarrow> Inr ()"
  obtain f t1 where f: "findExistingRecord m ans txn ?clean = (f, t1)"
    by (cases "findExistingRecord m ans txn ?clean")
  have f1: "t1 = Active \<longleftrightarrow> txn = Active \<and> \<not> isl f"
  proof (cases "truthy (getProp ?clean (keyField m))")
    case True
    with f have "statement txn (find_answer ans) = (f, t1)"
      by (simp add: findExistingRecord_def)
    from statement_active [OF this] show ?thesis by simp
  next
    case False
    with f show ?thesis by (auto simp: findExistingRecord_def)
  qed
  show ?thesis
  proof (cases f)
    case (Inl e)
    with assms f f1 show ?thesis by (auto simp: upsert_attempt_def Let_def)
  next
    case (Inr existing)
    obtain w t2 where w: "statement t1 ?w = (w, t2)" by (cases "statement t1 ?w")
    from statement_active [OF w] have w1: "t2 = Active \<longleftrightarrow> t1 = Active \<and> \<not> isl w" by simp
    from assms f Inr w have "txn' = t2" "isl res = isl w"
      by (auto simp: upsert_attempt_def Let_def split: sum.splits)
    with w1 f1 Inr show ?thesis by auto
  qed
qed

lemma upsert_attempt_same:
  "fst (upsert_attempt m ans Active r) = Inr k \<Longrightarrow> upsert_attempt m ans Active r = (Inr k, Active)"
  using upsert_attempt_active [of m ans Active r "fst (upsert_attempt m ans Active r)"
      "snd (upsert_attempt m ans Active r)"]
  by (cases "upsert_attempt m ans Active r") auto

lemma loadRecord_active:
  assumes "loadRecord m st txn ans r = (res, st', txn')"
  shows "(txn' = Active \<longleftrightarrow> txn = Active \<and> \<not> isl (fst (upsert_attempt m ans txn r)))
       \<and> (txn' = Active \<longrightarrow> \<not> isl res)"
proof -
  obtain a t where u: "upsert_attempt m ans txn r = (a, t)"
    by (cases "upsert_attempt m ans txn r")
  from assms u have "txn' = t"
    by (auto simp: loadRecord_def Let_def split: sum.splits load_kind.splits if_splits)
  moreover from assms u have "\<not> isl a \<longrightarrow> \<not> isl res"
    by (auto simp: loadRecord_def Let_def split: sum.splits load_kind.splits if_splits)
  ultimately show ?thesis using upsert_attempt_active [OF u] u by auto
qed

text \<open>
  The loop leaves the transaction block in order exactly when every row's own statements
  are accepted; a row that raises, be it SQLSTATE 23505, leaves it aborted.
\<close>

lemma load_records_active:
  "load_records m st txn batch = (res, st', txn') \<Longrightarrow>
   (txn' = Active \<longleftrightarrow> txn = Active \<and> (\<forall>ra \<in> set batch. row_succeeds m ra))
   \<and> (txn' = Active \<longrightarrow> \<not> isl res)"
proof (induction batch arbitrary: st txn)
  case Nil
  then show ?case by auto
next
  case (Cons ra batch)
  obtain r ans where ra: "ra = (r, ans)" by (cases ra)
  obtain res1 st1 txn1 where l: "loadRecord m st txn ans r = (res1, st1, txn1)"
    by (cases "loadRecord m st txn ans r")
  from loadRecord_active [OF l]
  have a: "txn1 = Active \<longleftrightarrow> txn = Active \<and> \<not> isl (fst (upsert_attempt m ans txn r))"
    and b: "txn1 = Active \<longrightarrow> \<not> isl res1" by auto
  have s: "txn = Active \<Longrightarrow> row_succeeds m ra \<longleftrightarrow> \<not> isl (fst (upsert_attempt m ans txn r))"
    using ra by (auto simp: row_succeeds_def split: sum.splits)
  show ?case
  proof (cases res1)
    case (Inl e)
    with Cons.prems ra l have "txn' = txn1" "res = Inl e" by auto
    with Inl a b s show ?thesis by auto
  next
    case (Inr u)
    with Cons.prems ra l have "load_records m st1 txn1 batch = (res, st', txn')" by simp
    from Cons.IH [OF this] a s show ?thesis by auto
  qed
qed

text \<open>
  With a connection and accepted \<^verbatim>\<open>BEGIN\<close> and \<^verbatim>\<open>COMMIT\<close>, the transaction of a batch
  commits exactly when the database accepts the statements of every row: one row that
  raises SQLSTATE 23505 is enough for the batch not to commit.
\<close>

lemma loadBatch_committed_iff:
  assumes "connect_answer ctl = None" and "begin_answer ctl = None"
    and "commit_answer ctl = None"
    and "loadBatch ctl m st batch = (res, st', issued, outcome)"
  shows "outcome = Committed \<longleftrightarrow> (\<forall>ra \<in> set batch. row_succeeds m ra)"
proof -
  obtain r1 s1 t1 where lr: "load_records m st Active batch = (r1, s1, t1)"
    by (cases "load_records m st Active batch")
  from load_records_active [OF lr]
  have a: "t1 = Active \<longleftrightarrow> (\<forall>ra \<in> set batch. row_succeeds m ra)"
    and b: "t1 = Active \<longrightarrow> \<not> isl r1" by auto
  show ?thesis
  proof (cases r1)
    case (Inl e)
    with assms lr have "outcome = RolledBack"
      by (auto simp: loadBatch_def rollback_def split: option.splits)
    with Inl a b show ?thesis by auto
  next
    case (Inr u)
    with assms lr have "outcome = (case t1 of Active \<Rightarrow> Committed | Aborted \<Rightarrow> RolledBack)"
      by (auto simp: loadBatch_def)
    with a show ?thesis by (cases t1) auto
  qed
qed

text \<open>
  Claim C2 (the code departs from it). The claim: a row whose insert raises SQLSTATE 23505
  is counted as skipped, and the batch continues and commits. The code on a batch of an
  accepted row followed by a duplicate row: the duplicate is counted as skipped,
  \<^verbatim>\<open>COMMIT\<close> is issued and \<^verbatim>\<open>loadBatch\<close> returns normally with
  \<open>recordsInserted = 1\<close>, but the violation has aborted the transaction, so the
  \<^verbatim>\<open>COMMIT\<close> rolls it back and the accepted row is not stored. With the duplicate row
  first, the batch does not continue: the next row's \<^verbatim>\<open>SELECT\<close> is answered with
  SQLSTATE 25P02, which \<^verbatim>\<open>loadRecord\<close> rethrows, and \<^verbatim>\<open>loadBatch\<close> rolls back.
\<close>

theorem loadBatch_unique_violation_rolls_back:
  "loadBatch ok_control example_mapping empty_load_stats [accepted_row, duplicate_row]
     = (Inr (),
        \<lparr> recordsLoaded = 1, recordsSkipped = 1, recordsUpdated = 0, recordsInserted = 1,
          errors = [(fst duplicate_row, JsError (Some ''23505'') ''duplicate key value'')] \<rparr>,
        [''BEGIN'', ''COMMIT''],
        RolledBack)
   \<and> loadBatch ok_control example_mapping empty_load_stats [duplicate_row, accepted_row]
     = (Inl aborted_error,
        \<lparr> recordsLoaded = 0, recordsSkipped = 1, recordsUpdated = 0, recordsInserted = 0,
          errors = [(fst duplicate_row, JsError (Some ''23505'') ''duplicate key value''),
                    (fst accepted_row, aborted_error)] \<rparr>,
        [''BEGIN'', ''ROLLBACK''],
        RolledBack)"
  by (simp add: loadBatch_def ok_control_def accepted_row_def duplicate_row_def
      empty_load_stats_def loadRecord_def upsert_attempt_def findExistingRecord_def
      statement_def keyField_def example_mapping_def getProp_def restrict_map_def
      rollback_def aborted_error_def)

subsection \<open>Scheduler\<close>

lemma step_keeps_running_in_step:
  assumes "\<forall>k. running s k = (if k \<in> currentJobs s then 1 else 0)"
  shows "\<forall>k. running (step s e) k = (if k \<in> currentJobs (step s e) then 1 else 0)"
proof (cases e)
  case (Fire j)
  with assms show ?thesis by (auto simp: execute_enter_def)
next
  case (Finish j outcome)
  with assms show ?thesis by (auto simp: execute_leave_def)
qed

lemma foldl_step_running:
  "\<forall>k. running s k = (if k \<in> currentJobs s then 1 else 0)
   \<Longrightarrow> \<forall>k. running (foldl step s evs) k
             = (if k \<in> currentJobs (foldl step s evs) then 1 else 0)"
proof (induction evs arbitrary: s)
  case Nil
  then show ?case by simp
next
  case (Cons e evs)
  from Cons.IH [OF step_keeps_running_in_step [OF Cons.prems, of e]] show ?case by simp
qed

lemma run_running: "running (run evs) k = (if k \<in> currentJobs (run evs) then 1 else 0)"
  using foldl_step_running [of new_scheduler evs] by (simp add: run_def new_scheduler_def)

text \<open>
  Claim C3. After any history of fires and ends, at most one execution of each kind is
  running; a fire of a kind that is in \<^verbatim>\<open>currentJobs\<close> logs a warning and changes
  neither \<^verbatim>\<open>totalJobs\<close> nor what is running; and executions of two different kinds
  can run at once (after a full-sync fire and an incremental-sync fire, both are running).
\<close>

theorem scheduler_at_most_one_per_kind:
  "running (run evs) k \<le> 1
   \<and> (k \<in> currentJobs (run evs) \<longrightarrow>
        totalJobs (jobStats (step (run evs) (Fire k))) = totalJobs (jobStats (run evs))
      \<and> running (step (run evs) (Fire k)) = running (run evs)
      \<and> currentJobs (step (run evs) (Fire k)) = currentJobs (run evs)
      \<and> warnings (step (run evs) (Fire k)) = warnings (run evs) @ [k])
   \<and> running (run [Fire fullSync, Fire incrementalSync]) fullSync = 1
   \<and> running (run [Fire fullSync, Fire incrementalSync]) incrementalSync = 1"
proof -
  have a: "running (run evs) k \<le> 1" by (simp add: run_running)
  have b: "running (run [Fire fullSync, Fire incrementalSync]) fullSync = 1"
    "running (run [Fire fullSync, Fire incrementalSync]) incrementalSync = 1"
    by (simp_all add: run_def new_scheduler_def execute_enter_def)
  from a b show ?thesis by (simp add: execute_enter_def)
qed

theorem scheduler_at_most_one_per_kind_witness:
  "fullSync \<in> currentJobs (run [Fire fullSync])
   \<and> running (run [Fire fullSync, Fire fullSync]) fullSync = 1
   \<and> totalJobs (jobStats (run [Fire fullSync, Fire fullSync])) = 1
   \<and> warnings (run [Fire fullSync, Fire fullSync]) = [fullSync]"
proof -
  have h: "fullSync \<in> currentJobs (run [Fire fullSync])"
    by (simp add: run_def new_scheduler_def execute_enter_def)
  have r: "run [Fire fullSync, Fire fullSync] = step (run [Fire fullSync]) (Fire fullSync)"
    by (simp add: run_def)
  have t: "totalJobs (jobStats (run [Fire fullSync])) = 1" "warnings (run [Fire fullSync]) = []"
    by (simp_all add: run_def new_scheduler_def execute_enter_def)
  have pos: "running (run [Fire fullSync, Fire fullSync]) fullSync = 1"
    by (simp add: run_def new_scheduler_def execute_enter_def)
  from scheduler_at_most_one_per_kind [of "[Fire fullSync]" fullSync] h r t pos
  show ?thesis by simp
qed

subsection \<open>Period resolution\<close>

lemmas calendar_eval =
  getPeriodRange_def startOf_def endOf_def first_day_def day_count_def local_day_def day_ms_def
  weekday_def civil_def year_split.simps month_split.simps year_length_def month_length_def
  is_leap_def

lemma year_split_range: "year_split y d = (y', r) \<Longrightarrow> 0 \<le> r \<and> r < year_length y'"
proof (induction y d rule: year_split.induct)
  case (1 y d)
  from "1.prems" "1.IH" show ?case
    by (simp add: year_split.simps [of y d] split: if_splits)
qed

lemma year_split_shift: "year_split (y + 1) (d - year_length y) = year_split y d"
proof -
  have pos: "year_length y > 0" by (simp add: year_length_def)
  consider "d < 0" | "0 \<le> d" "d < year_length y" | "year_length y \<le> d" by linarith
  then show ?thesis
  proof cases
    case 1
    with pos have "d - year_length y < 0" by simp
    then show ?thesis
      by (simp add: year_split.simps [of "y + 1" "d - year_length y"])
  next
    case 2
    then show ?thesis
      by (simp add: year_split.simps [of "y + 1" "d - year_length y"])
  next
    case 3
    with pos have "\<not> d < 0" by simp
    with 3 show ?thesis by (simp add: year_split.simps [of y d])
  qed
qed

lemma year_split_minus:
  "year_split y d = (y', r) \<Longrightarrow> year_split y (d - k) = year_split y' (r - k)"
proof (induction y d arbitrary: k rule: year_split.induct)
  case (1 y d)
  show ?case
  proof (cases "d < 0")
    case True
    with "1.prems" have p: "year_split (y - 1) (d + year_length (y - 1)) = (y', r)"
      by (simp add: year_split.simps [of y d])
    from "1.IH"(1) [OF True p, of k]
    have "year_split (y - 1) (d + year_length (y - 1) - k) = year_split y' (r - k)" .
    moreover
    have "year_split (y - 1 + 1) (d - k + year_length (y - 1) - year_length (y - 1))
            = year_split (y - 1) (d - k + year_length (y - 1))"
      by (rule year_split_shift)
    ultimately show ?thesis by (simp add: algebra_simps)
  next
    case False
    show ?thesis
    proof (cases "year_length y \<le> d")
      case True
      with False "1.prems" have p: "year_split (y + 1) (d - year_length y) = (y', r)"
        by (simp add: year_split.simps [of y d])
      from "1.IH"(2) [OF False True p, of k]
      have "year_split (y + 1) (d - year_length y - k) = year_split y' (r - k)" .
      moreover have "year_split (y + 1) (d - k - year_length y) = year_split y (d - k)"
        by (rule year_split_shift)
      ultimately show ?thesis by (simp add: algebra_simps)
    next
      case nl: False
      with False "1.prems" show ?thesis by (simp add: year_split.simps [of y d])
    qed
  qed
qed

lemma year_split_fix: "0 \<le> r \<Longrightarrow> r < year_length y \<Longrightarrow> year_split y r = (y, r)"
  by (simp add: year_split.simps [of y r])

lemma month_length_pos: "0 < month_length y m"
  by (simp add: month_length_def)

lemma month_split_le: "month_split y m r = (m', r') \<Longrightarrow> r' \<le> r \<and> m \<le> m'"
proof (induction y m r rule: month_split.induct)
  case (1 y m r)
  from "1.prems" "1.IH" month_length_pos [of y m] show ?case
    by (fastforce simp: month_split.simps [of y m r] split: if_splits)
qed

lemma month_split_nonneg: "0 \<le> r \<Longrightarrow> month_split y m r = (m', r') \<Longrightarrow> 0 \<le> r'"
proof (induction y m r rule: month_split.induct)
  case (1 y m r)
  from "1.prems" "1.IH" show ?case
    by (auto simp: month_split.simps [of y m r] split: if_splits)
qed

lemma days_from_year: "days_from y 1 = year_length y"
  by (simp add: days_from.simps month_length_def year_length_def)

lemma month_split_upper:
  "r < days_from y m \<Longrightarrow> month_split y m r = (m', r') \<Longrightarrow> r' < month_length y m'"
proof (induction y m r rule: month_split.induct)
  case (1 y m r)
  show ?case
  proof (cases "m < 12 \<and> month_length y m \<le> r")
    case True
    with "1.prems" have p: "month_split y (m + 1) (r - month_length y m) = (m', r')"
      by (simp add: month_split.simps [of y m r])
    from True "1.prems"(1) have "r - month_length y m < days_from y (m + 1)"
      by (simp add: days_from.simps [of y m])
    from "1.IH" [OF True this p] show ?thesis .
  next
    case False
    with "1.prems" have e: "m' = m" "r' = r" by (simp_all add: month_split.simps [of y m r])
    show ?thesis
    proof (cases "m < 12")
      case True
      with False e show ?thesis by simp
    next
      case ge: False
      with "1.prems"(1) e show ?thesis by (simp add: days_from.simps [of y m])
    qed
  qed
qed

lemma month_split_start:
  "month_split y m r = (m', r') \<Longrightarrow> month_split y m (r - r') = (m', 0)"
proof (induction y m r rule: month_split.induct)
  case (1 y m r)
  show ?case
  proof (cases "m < 12 \<and> month_length y m \<le> r")
    case True
    with "1.prems" have p: "month_split y (m + 1) (r - month_length y m) = (m', r')"
      by (simp add: month_split.simps [of y m r])
    from month_split_le [OF p] have "r' \<le> r - month_length y m" by simp
    with True have c: "m < 12 \<and> month_length y m \<le> r - r'" by simp
    have eq: "r - r' - month_length y m = r - month_length y m - r'" by simp
    from "1.IH" [OF True p]
    have "month_split y (m + 1) (r - r' - month_length y m) = (m', 0)" unfolding eq .
    with c show ?thesis by (simp add: month_split.simps [of y m "r - r'"])
  next
    case False
    with "1.prems" have e: "m' = m" "r' = r" by (simp_all add: month_split.simps [of y m r])
    with month_length_pos [of y m] show ?thesis by (simp add: month_split.simps [of y m 0])
  qed
qed

lemma weekday_range: "0 \<le> weekday d \<and> weekday d < 7"
  by (simp add: weekday_def)

lemma first_day_bounds: "first_day u d \<le> d \<and> d < first_day u d + day_count u d"
proof (cases u)
  case Day
  then show ?thesis by (simp add: first_day_def day_count_def)
next
  case Week
  with weekday_range [of d] show ?thesis by (simp add: first_day_def day_count_def)
next
  case Month
  obtain y r where ys: "year_split 1970 d = (y, r)" by (cases "year_split 1970 d")
  obtain m r' where ms: "month_split y 1 r = (m, r')" by (cases "month_split y 1 r")
  from year_split_range [OF ys] have r: "0 \<le> r" "r < year_length y" by auto
  from month_split_nonneg [OF r(1) ms] have "0 \<le> r'" .
  moreover from r(2) have "r < days_from y 1" by (simp only: days_from_year)
  from month_split_upper [OF this ms] have "r' < month_length y m" .
  ultimately show ?thesis using Month ys ms by (simp add: first_day_def day_count_def)
next
  case Year
  obtain y r where ys: "year_split 1970 d = (y, r)" by (cases "year_split 1970 d")
  from year_split_range [OF ys] Year ys show ?thesis by (simp add: first_day_def day_count_def)
qed

lemma day_count_pos: "0 < day_count u d"
  using first_day_bounds [of u d] by linarith

lemma local_day_startOf: "local_day off (startOf off u t) = first_day u (local_day off t)"
  by (simp add: local_day_def startOf_def day_ms_def)

lemma startOf_le: "startOf off u t \<le> t"
proof -
  have "first_day u (local_day off t) \<le> local_day off t" using first_day_bounds by simp
  then have "first_day u (local_day off t) * day_ms \<le> local_day off t * day_ms"
    by (simp add: day_ms_def)
  also have "local_day off t * day_ms \<le> t + off"
    by (simp add: local_day_def day_ms_def)
  finally show ?thesis by (simp add: startOf_def)
qed

lemma le_endOf: "t \<le> endOf off u t"
proof -
  let ?d = "local_day off t"
  have "?d + 1 \<le> first_day u ?d + day_count u ?d" using first_day_bounds [of u ?d] by simp
  then have "(?d + 1) * day_ms \<le> (first_day u ?d + day_count u ?d) * day_ms"
    by (simp add: day_ms_def)
  moreover have "t + off < (?d + 1) * day_ms"
  proof -
    have "(t + off) mod day_ms < day_ms" by (simp add: day_ms_def)
    moreover have "t + off = ?d * day_ms + (t + off) mod day_ms"
      by (simp add: local_day_def)
    ultimately show ?thesis by (simp add: algebra_simps)
  qed
  ultimately show ?thesis by (simp add: endOf_def)
qed

lemma period_length:
  "endOf off u t + 1 - startOf off u t = day_count u (local_day off t) * day_ms"
  by (simp add: endOf_def startOf_def algebra_simps)

lemma start_lt_end: "startOf off u t < endOf off u t"
proof -
  have "1 * day_ms \<le> day_count u (local_day off t) * day_ms"
    using day_count_pos [of u "local_day off t"] by (simp add: day_ms_def)
  with period_length [of off u t] show ?thesis by (simp add: day_ms_def)
qed

lemma start_midnight: "(startOf off u t + off) mod day_ms = 0"
  by (simp add: startOf_def)

lemma week_starts_sunday: "weekday (local_day off (startOf off Week t)) = 0"
  by (simp add: local_day_startOf first_day_def weekday_def) presburger

lemma civil_month_start:
  "civil (local_day off (startOf off Month t))
     = (fst (civil (local_day off t)), fst (snd (civil (local_day off t))), 1)"
proof -
  let ?d = "local_day off t"
  obtain y r where ys: "year_split 1970 ?d = (y, r)" by (cases "year_split 1970 ?d")
  obtain m r' where ms: "month_split y 1 r = (m, r')" by (cases "month_split y 1 r")
  from year_split_range [OF ys] have r: "0 \<le> r" "r < year_length y" by auto
  from month_split_nonneg [OF r(1) ms] month_split_le [OF ms]
  have r': "0 \<le> r'" "r' \<le> r" by auto
  from year_split_minus [OF ys, of r']
  have "year_split 1970 (?d - r') = year_split y (r - r')" .
  also from r r' have "\<dots> = (y, r - r')" by (simp add: year_split_fix)
  finally have a: "year_split 1970 (?d - r') = (y, r - r')" .
  from month_split_start [OF ms] have b: "month_split y 1 (r - r') = (m, 0)" .
  from ys ms a b show ?thesis
    by (simp add: civil_def local_day_startOf first_day_def)
qed

lemma civil_year_start:
  "civil (local_day off (startOf off Year t)) = (fst (civil (local_day off t)), 1, 1)"
proof -
  let ?d = "local_day off t"
  obtain y r where ys: "year_split 1970 ?d = (y, r)" by (cases "year_split 1970 ?d")
  from year_split_range [OF ys] have r: "0 \<le> r" "r < year_length y" by auto
  from year_split_minus [OF ys, of r] have "year_split 1970 (?d - r) = year_split y 0" by simp
  also have "\<dots> = (y, 0)" by (simp add: year_split_fix year_length_def)
  finally have a: "year_split 1970 (?d - r) = (y, 0)" .
  have b: "month_split y 1 0 = (1, 0)" by (simp add: month_split.simps month_length_def)
  from ys a b show ?thesis
    by (simp add: civil_def local_day_startOf first_day_def split: prod.splits)
qed

lemma day_count_civil:
  "day_count Month d = month_length (fst (civil d)) (fst (snd (civil d)))
   \<and> day_count Year d = year_length (fst (civil d))"
  by (simp add: day_count_def civil_def split: prod.splits)

text \<open>
  Claim C7, as stated, fails for the weekly period: for the reference date
  2025-03-10T14:22Z, a Monday, in a process whose local time is UTC, \<^verbatim>\<open>getPeriodRange\<close>
  returns the week from Sunday 2025-03-09T00:00Z to Saturday 2025-03-15T23:59:59.999Z, while
  the ISO week of that date begins on Monday 2025-03-10T00:00Z.
\<close>

theorem getPeriodRange_weekly_counterexample:
  "getPeriodRange 0 1741616520000 ''WEEKLY'' = Inr (1741478400000, 1742083199999)
   \<and> spec_iso_week_start 0 1741616520000 = 1741564800000"
  by (simp add: calendar_eval spec_iso_week_start_def)

text \<open>
  Claim C7, amended. For every reference date \<open>t\<close>, \<^verbatim>\<open>getPeriodRange\<close> resolves
  \<open>[periodStart, periodEnd]\<close> in the local time of the process, taken to be at a fixed
  offset \<open>off\<close> from UTC: \<^verbatim>\<open>DAILY\<close>, \<^verbatim>\<open>WEEKLY\<close>,
  \<^verbatim>\<open>MONTHLY\<close> and \<^verbatim>\<open>YEARLY\<close> give the day, the week beginning on Sunday, the calendar
  month and the calendar year, and any other period type raises an error. For each unit
  the period starts at a local midnight, contains \<open>t\<close>, ends after it starts, and lasts
  1 day, 7 days, the length of the month or the length of the year, less one millisecond;
  the week starts on a Sunday, the month on the first of \<open>t\<close>'s month, the year on the first
  of January of \<open>t\<close>'s year. With local time UTC, the daily period of 2025-03-10T14:22Z is
  [2025-03-10T00:00Z, 2025-03-10T23:59:59.999Z] and its monthly period is
  [2025-03-01T00:00Z, 2025-03-31T23:59:59.999Z].
\<close>

theorem getPeriodRange_resolves_period:
  "getPeriodRange off t ''DAILY'' = Inr (startOf off Day t, endOf off Day t)
   \<and> getPeriodRange off t ''WEEKLY'' = Inr (startOf off Week t, endOf off Week t)
   \<and> getPeriodRange off t ''MONTHLY'' = Inr (startOf off Month t, endOf off Month t)
   \<and> getPeriodRange off t ''YEARLY'' = Inr (startOf off Year t, endOf off Year t)
   \<and> (periodType \<notin> set [''DAILY'', ''WEEKLY'', ''MONTHLY'', ''YEARLY'']
        \<longrightarrow> getPeriodRange off t periodType = Inl periodType)
   \<and> startOf off u t \<le> t \<and> t \<le> endOf off u t \<and> startOf off u t < endOf off u t
   \<and> (startOf off u t + off) mod day_ms = 0
   \<and> endOf off u t + 1 - startOf off u t = day_count u (local_day off t) * day_ms
   \<and> day_count Day (local_day off t) = 1
   \<and> day_count Week (local_day off t) = 7
   \<and> day_count Month (local_day off t)
       = month_length (fst (civil (local_day off t))) (fst (snd (civil (local_day off t))))
   \<and> day_count Year (local_day off t) = year_length (fst (civil (local_day off t)))
   \<and> local_day off (startOf off Day t) = local_day off t
   \<and> weekday (local_day off (startOf off Week t)) = 0
   \<and> civil (local_day off (startOf off Month t))
       = (fst (civil (local_day off t)), fst (snd (civil (local_day off t))), 1)
   \<and> civil (local_day off (startOf off Year t)) = (fst (civil (local_day off t)), 1, 1)
   \<and> getPeriodRange 0 1741616520000 ''DAILY'' = Inr (1741564800000, 1741651199999)
   \<and> getPeriodRange 0 1741616520000 ''MONTHLY'' = Inr (1740787200000, 1743465599999)"
proof -
  have kinds:
    "getPeriodRange off t ''DAILY'' = Inr (startOf off Day t, endOf off Day t)"
    "getPeriodRange off t ''WEEKLY'' = Inr (startOf off Week t, endOf off Week t)"
    "getPeriodRange off t ''MONTHLY'' = Inr (startOf off Month t, endOf off Month t)"
    "getPeriodRange off t ''YEARLY'' = Inr (startOf off Year t, endOf off Year t)"
    by (simp_all add: getPeriodRange_def)
  have other: "periodType \<notin> set [''DAILY'', ''WEEKLY'', ''MONTHLY'', ''YEARLY'']
        \<longrightarrow> getPeriodRange off t periodType = Inl periodType"
    by (simp add: getPeriodRange_def)
  have counts: "day_count Day (local_day off t) = 1" "day_count Week (local_day off t) = 7"
    by (simp_all add: day_count_def)
  have day: "local_day off (startOf off Day t) = local_day off t"
    by (simp add: local_day_startOf first_day_def)
  have ex1: "getPeriodRange 0 1741616520000 ''DAILY'' = Inr (1741564800000, 1741651199999)"
    by (simp add: calendar_eval)
  have ex2: "getPeriodRange 0 1741616520000 ''MONTHLY'' = Inr (1740787200000, 1743465599999)"
    by (simp add: calendar_eval)
  from kinds other counts day ex1 ex2 startOf_le [of off u t] le_endOf [of t off u]
    start_lt_end [of off u t] start_midnight [of off u t] period_length [of off u t]
    day_count_civil [of "local_day off t"] week_starts_sunday [of off t]
    civil_month_start [of off t] civil_year_start [of off t]
  show ?thesis by blast
qed

theorem getPeriodRange_resolves_period_witness:
  "''HOURLY'' \<notin> set [''DAILY'', ''WEEKLY'', ''MONTHLY'', ''YEARLY'']
   \<and> getPeriodRange (- 10800000) 1741616520000 ''HOURLY'' = Inl ''HOURLY''
   \<and> getPeriodRange (- 10800000) 1741616520000 ''DAILY'' = Inr (1741575600000, 1741661999999)
   \<and> startOf (- 10800000) Day 1741616520000 \<le> 1741616520000"
proof -
  have h: "''HOURLY'' \<notin> set [''DAILY'', ''WEEKLY'', ''MONTHLY'', ''YEARLY'']" by simp
  have d: "getPeriodRange (- 10800000) 1741616520000 ''DAILY''
             = Inr (1741575600000, 1741661999999)"
    by (simp add: calendar_eval)
  from getPeriodRange_resolves_period [of "- 10800000" 1741616520000 "''HOURLY''" Day] h d
  show ?thesis by simp
qed

subsection \<open>Analytics\<close>





lemma upsertUserAnalytics_data:
  assumes "upsertUserAnalytics conn now newid tbl a = (Inr r, tbl')"
  shows "ua_data r = upsert_values a \<and> last_updated r = now"
  using assms
  by (auto simp: upsertUserAnalytics_def Let_def excluded_update_def
      split: option.splits if_splits)




subsection \<open>The upsert of \<^verbatim>\<open>user_analytics\<close>\<close>

lemma key_of_upsert_values: "key_of (upsert_values a) = key_of a"
  by (simp add: key_of_def upsert_values_def)

lemma row_key_excluded: "row_key (excluded_update v now r) = key_of v"
  by (simp add: row_key_def excluded_update_def)

lemma map_key_update:
  "map row_key (map (\<lambda>r. if row_key r = key_of v then excluded_update v now r else r) tbl)
     = map row_key tbl"
  by (induction tbl) (auto simp: row_key_excluded)

lemma find_None_filter: "find P xs = None \<Longrightarrow> filter P xs = []"
  by (induction xs) (auto split: if_splits)

lemma distinct_filter_key:
  "distinct (map f xs) \<Longrightarrow> find (\<lambda>r. f r = k) xs = Some x \<Longrightarrow> filter (\<lambda>r. f r = k) xs = [x]"
proof (induction xs)
  case Nil
  then show ?case by simp
next
  case (Cons y ys)
  show ?case
  proof (cases "f y = k")
    case True
    with Cons.prems have "x = y" by simp
    moreover from True Cons.prems have "k \<notin> f ` set ys" by auto
    then have "filter (\<lambda>r. f r = k) ys = []"
      by (auto simp: filter_empty_conv)
    ultimately show ?thesis using True by simp
  next
    case False
    with Cons show ?thesis by simp
  qed
qed

lemma upsertUserAnalytics_ok:
  assumes u: "unique_keys tbl"
    and w: "upsertUserAnalytics conn now newid tbl a = (Inr r, tbl')"
  shows "unique_keys tbl' \<and> filter (\<lambda>x. row_key x = key_of a) tbl' = [r]
       \<and> (\<forall>old. find (\<lambda>x. row_key x = key_of a) tbl = Some old
              \<longrightarrow> ua_id r = ua_id old \<and> created_at r = created_at old
                  \<and> length tbl' = length tbl)"
proof (cases "find (\<lambda>x. row_key x = key_of a) tbl")
  case None
  with w have r: "r = \<lparr> ua_id = newid, ua_data = upsert_values a, last_updated = now,
                        created_at = now \<rparr>"
    and t: "tbl' = tbl @ [r]"
    by (auto simp: upsertUserAnalytics_def Let_def key_of_upsert_values
        split: option.splits if_splits)
  from r have k: "row_key r = key_of a" by (simp add: row_key_def key_of_upsert_values)
  from None have nk: "key_of a \<notin> row_key ` set tbl" by (auto simp: find_None_iff)
  from u nk k t have "unique_keys tbl'" by (simp add: unique_keys_def)
  moreover from find_None_filter [OF None] k t
  have "filter (\<lambda>x. row_key x = key_of a) tbl' = [r]" by simp
  ultimately show ?thesis using None by simp
next
  case (Some old)
  with w have r: "r = excluded_update (upsert_values a) now old"
    and t: "tbl' = map (\<lambda>x. if row_key x = key_of a
                              then excluded_update (upsert_values a) now x else x) tbl"
    by (auto simp: upsertUserAnalytics_def Let_def key_of_upsert_values
        split: option.splits if_splits)
  from t have mk: "map row_key tbl' = map row_key tbl"
    using map_key_update [of "upsert_values a" now tbl] by (simp add: key_of_upsert_values)
  with u have u': "unique_keys tbl'" by (simp add: unique_keys_def)
  from u Some have f: "filter (\<lambda>x. row_key x = key_of a) tbl = [old]"
    by (simp add: unique_keys_def distinct_filter_key)
  have "filter (\<lambda>x. row_key x = key_of a) tbl'
        = map (excluded_update (upsert_values a) now) (filter (\<lambda>x. row_key x = key_of a) tbl)"
    unfolding t by (induction tbl) (auto simp: row_key_excluded key_of_upsert_values)
  with f r have "filter (\<lambda>x. row_key x = key_of a) tbl' = [r]" by simp
  with u' r Some t show ?thesis by (simp add: excluded_update_def)
qed

text \<open>
  Claim C4. On a table that satisfies its \<^verbatim>\<open>UNIQUE\<close> constraint, after two successful
  writes with the same \<open>(user_id, period_type, period_start)\<close> exactly one row persists for
  that key: the row the second write returns. All its written columns (\<open>period_end\<close> and
  every metric) are the values of the second write and its \<open>last_updated\<close> is the time of
  the second write; it is the row of the first write (same \<open>id\<close> and \<open>created_at\<close>), the
  second write adds no row, and the table still satisfies the constraint.
\<close>

theorem upsertUserAnalytics_last_write_wins:
  assumes "unique_keys tbl"
    and "upsertUserAnalytics conn1 now1 id1 tbl a1 = (Inr r1, tbl1)"
    and "upsertUserAnalytics conn2 now2 id2 tbl1 a2 = (Inr r2, tbl2)"
    and "key_of a1 = key_of a2"
  shows "filter (\<lambda>x. row_key x = key_of a2) tbl2 = [r2]
       \<and> ua_data r2 = upsert_values a2 \<and> last_updated r2 = now2
       \<and> ua_id r2 = ua_id r1 \<and> created_at r2 = created_at r1
       \<and> length tbl2 = length tbl1 \<and> unique_keys tbl2"
proof -
  from upsertUserAnalytics_ok [OF assms(1) assms(2)]
  have u1: "unique_keys tbl1" and f1: "filter (\<lambda>x. row_key x = key_of a1) tbl1 = [r1]"
    by auto
  from f1 assms(4) have "find (\<lambda>x. row_key x = key_of a2) tbl1 = Some r1"
    by (induction tbl1) (auto split: if_splits)
  with upsertUserAnalytics_ok [OF u1 assms(3)] upsertUserAnalytics_data [OF assms(3)]
  show ?thesis by simp
qed

theorem upsertUserAnalytics_last_write_wins_witness:
  "unique_keys []
   \<and> upsertUserAnalytics None 100 1 [] first_write = (Inr first_row, [first_row])
   \<and> upsertUserAnalytics None 200 2 [first_row] second_write = (Inr second_row, [second_row])
   \<and> key_of first_write = key_of second_write
   \<and> filter (\<lambda>x. row_key x = key_of second_write) [second_row] = [second_row]
   \<and> total_deposits (ua_data second_row) = Num 50
   \<and> last_updated second_row = 200 \<and> ua_id second_row = 1 \<and> created_at second_row = 100"
proof -
  have u: "unique_keys []" by (simp add: unique_keys_def)
  have k: "key_of first_write = key_of second_write"
    by (simp add: key_of_def second_write_def)
  have c1: "table_checks (upsert_values first_write)"
    by (simp add: table_checks_def upsert_values_def first_write_def build_analytics_def
        nonneg_def)
  have c2: "table_checks (upsert_values second_write)"
    by (simp add: table_checks_def upsert_values_def second_write_def first_write_def
        build_analytics_def nonneg_def)
  have w1: "upsertUserAnalytics None 100 1 [] first_write = (Inr first_row, [first_row])"
    using c1 by (simp add: upsertUserAnalytics_def first_row_def Let_def)
  have rk: "row_key first_row = key_of (upsert_values second_write)"
    using k by (simp add: row_key_def first_row_def key_of_upsert_values)
  have w2: "upsertUserAnalytics None 200 2 [first_row] second_write
              = (Inr second_row, [second_row])"
    using c2 rk
    by (simp add: upsertUserAnalytics_def excluded_update_def first_row_def second_row_def
        Let_def)
  have t: "total_deposits (ua_data second_row) = Num 50"
    by (simp add: second_row_def upsert_values_def second_write_def)
  from upsertUserAnalytics_last_write_wins [OF u w1 w2 k] u w1 w2 k t
  show ?thesis by (simp add: first_row_def)
qed

subsection \<open>\<^verbatim>\<open>syncExternalData\<close>\<close>

lemma pick_batchSize_nonzero: "pick_batchSize a b \<noteq> 0"
  by (auto simp: pick_batchSize_def split: option.splits)

lemma chunk_list_concat: "0 < n \<Longrightarrow> concat (chunk_list n xs) = xs"
proof (induction n xs rule: chunk_list.induct)
  case (1 n xs)
  show ?case
  proof (cases "xs = []")
    case True
    then show ?thesis by (subst chunk_list.simps) simp
  next
    case False
    with "1.prems" have "concat (chunk_list n (drop n xs)) = drop n xs"
      using "1.IH" by simp
    with False "1.prems" show ?thesis by (simp add: chunk_list.simps [of n xs])
  qed
qed

lemma foldl_count_chunk:
  "foldl (count_chunk c) (s, f) chunks = (s', f')
   \<Longrightarrow> s' + f' = s + f + length (concat chunks)"
proof (induction chunks arbitrary: s f)
  case Nil
  then show ?case by simp
next
  case (Cons x chunks)
  obtain s1 f1 where st: "count_chunk c (s, f) x = (s1, f1)" by (cases "count_chunk c (s, f) x")
  then have "s1 + f1 = s + f + length x" by (auto simp: count_chunk_def split: if_splits)
  moreover from Cons.prems st have "foldl (count_chunk c) (s1, f1) chunks = (s', f')" by simp
  from Cons.IH [OF this] have "s' + f' = s1 + f1 + length (concat chunks)" .
  ultimately show ?case by simp
qed

lemma getExternalData_limit:
  "getExternalData ext limit = Inr rows \<Longrightarrow> limit \<noteq> 0 \<Longrightarrow> 0 < limit"
  by (auto simp: getExternalData_def split: sum.splits if_splits)

lemma sync_failed_throws: "sync_failed env e p s f = (Inr res, final) \<Longrightarrow> False"
  by (auto simp: sync_failed_def split: option.splits)

text \<open>
  Claim C10. Whenever \<^verbatim>\<open>syncExternalData\<close> returns normally, its log row has status
  \<^verbatim>\<open>COMPLETED\<close>, whether or not chunks failed, with \<open>records_success + records_failed\<close>
  equal to \<open>records_processed\<close> and the failure count noted only in \<open>error_message\<close>; and
  a log row with status \<^verbatim>\<open>FAILED\<close> means that an exception escaped the sync.
\<close>

theorem syncExternalData_log_status:
  "(\<forall>res log. syncExternalData env options = (Inr res, log) \<longrightarrow>
      (\<exists>l. log = Some l
          \<and> status l = ''COMPLETED''
          \<and> records_success l + records_failed l = records_processed l
          \<and> error_message l
              = (if records_failed l > 0 then Some (FailedCount (records_failed l)) else None)
          \<and> sr_recordsProcessed res = records_processed l
          \<and> sr_recordsSuccess res = records_success l
          \<and> sr_recordsFailed res = records_failed l))
   \<and> (\<forall>out l. syncExternalData env options = (out, Some l) \<and> status l = ''FAILED''
        \<longrightarrow> isl out)"
proof (intro conjI allI impI)
  fix res log
  assume run: "syncExternalData env options = (Inr res, log)"
  let ?b = "pick_batchSize (so_batchSize options) (settings_batch_size env)"
  from run have c: "create_answer env = None"
    by (auto simp: syncExternalData_def Let_def split: option.splits)
  from run c
  obtain rows where g: "getExternalData (external_rows env) ?b = Inr rows"
    by (cases "getExternalData (external_rows env) ?b")
       (auto simp: syncExternalData_def Let_def dest: sync_failed_throws)
  from getExternalData_limit [OF g pick_batchSize_nonzero] have pos: "0 < ?b" .
  obtain s f where fo: "foldl (count_chunk (chunk_completes env)) (0, 0)
                          (lodash_chunk rows (min ?b 100)) = (s, f)"
    by (cases "foldl (count_chunk (chunk_completes env)) (0, 0) (lodash_chunk rows (min ?b 100))")
  from pos have m: "\<not> min ?b 100 < 1" "0 < nat (min ?b 100)"
    by (simp_all add: min_def)
  from m(1) have "lodash_chunk rows (min ?b 100) = chunk_list (nat (min ?b 100)) rows"
    unfolding lodash_chunk_def by (rule if_not_P)
  note this m(2)
  with chunk_list_concat [of "nat (min ?b 100)" rows]
  have "concat (lodash_chunk rows (min ?b 100)) = rows" by simp
  with foldl_count_chunk [OF fo] have sum: "s + f = length rows" by simp
  from run c g fo
  have u: "update_in_try env = None"
    by (cases "update_in_try env")
       (auto simp: syncExternalData_def Let_def dest: sync_failed_throws)
  from run c g fo u sum
  show "\<exists>l. log = Some l
          \<and> status l = ''COMPLETED''
          \<and> records_success l + records_failed l = records_processed l
          \<and> error_message l
              = (if records_failed l > 0 then Some (FailedCount (records_failed l)) else None)
          \<and> sr_recordsProcessed res = records_processed l
          \<and> sr_recordsSuccess res = records_success l
          \<and> sr_recordsFailed res = records_failed l"
    by (auto simp: syncExternalData_def Let_def)
next
  fix out l
  assume a: "syncExternalData env options = (out, Some l) \<and> status l = ''FAILED''"
  show "isl out"
  proof (cases out)
    case (Inl e)
    then show ?thesis by simp
  next
    case (Inr res)
    with a have "syncExternalData env options = (Inr res, Some l)" by simp
    with a show ?thesis
      by (auto simp: syncExternalData_def Let_def dest: sync_failed_throws
          split: option.splits sum.splits prod.splits)
  qed
qed

theorem syncExternalData_log_status_witness:
  "syncExternalData example_sync_env \<lparr> so_batchSize = Some 2 \<rparr>
     = (Inr \<lparr> sr_recordsProcessed = 2, sr_recordsSuccess = 2, sr_recordsFailed = 0 \<rparr>,
        Some \<lparr> records_processed = 2, records_success = 2, records_failed = 0,
               status = ''COMPLETED'', error_message = None \<rparr>)
   \<and> syncExternalData example_sync_env \<lparr> so_batchSize = None \<rparr>
     = (Inr \<lparr> sr_recordsProcessed = 3, sr_recordsSuccess = 0, sr_recordsFailed = 3 \<rparr>,
        Some \<lparr> records_processed = 3, records_success = 0, records_failed = 3,
               status = ''COMPLETED'', error_message = Some (FailedCount 3) \<rparr>)
   \<and> syncExternalData (example_sync_env\<lparr> update_in_try := Some (JsError None ''connection lost'') \<rparr>)
        \<lparr> so_batchSize = None \<rparr>
     = (Inl (JsError None ''connection lost''),
        Some \<lparr> records_processed = 3, records_success = 0, records_failed = 3,
               status = ''FAILED'', error_message = Some (ErrorMessage ''connection lost'') \<rparr>)"
proof -
  have r1: "syncExternalData example_sync_env \<lparr> so_batchSize = Some 2 \<rparr>
     = (Inr \<lparr> sr_recordsProcessed = 2, sr_recordsSuccess = 2, sr_recordsFailed = 0 \<rparr>,
        Some \<lparr> records_processed = 2, records_success = 2, records_failed = 0,
               status = ''COMPLETED'', error_message = None \<rparr>)"
    by (simp add: syncExternalData_def example_sync_env_def pick_batchSize_def
        getExternalData_def lodash_chunk_def chunk_list.simps count_chunk_def Let_def)
  have r2: "syncExternalData example_sync_env \<lparr> so_batchSize = None \<rparr>
     = (Inr \<lparr> sr_recordsProcessed = 3, sr_recordsSuccess = 0, sr_recordsFailed = 3 \<rparr>,
        Some \<lparr> records_processed = 3, records_success = 0, records_failed = 3,
               status = ''COMPLETED'', error_message = Some (FailedCount 3) \<rparr>)"
    by (simp add: syncExternalData_def example_sync_env_def pick_batchSize_def
        getExternalData_def lodash_chunk_def chunk_list.simps count_chunk_def Let_def)
  have r3: "syncExternalData
        (example_sync_env\<lparr> update_in_try := Some (JsError None ''connection lost'') \<rparr>)
        \<lparr> so_batchSize = None \<rparr>
     = (Inl (JsError None ''connection lost''),
        Some \<lparr> records_processed = 3, records_success = 0, records_failed = 3,
               status = ''FAILED'', error_message = Some (ErrorMessage ''connection lost'') \<rparr>)"
    by (simp add: syncExternalData_def example_sync_env_def pick_batchSize_def
        getExternalData_def lodash_chunk_def chunk_list.simps count_chunk_def Let_def
        sync_failed_def)
  from syncExternalData_log_status [of example_sync_env "\<lparr> so_batchSize = None \<rparr>"] r1 r2 r3
  show ?thesis by simp
qed

end
